theory Spec2Isabelle
  imports Main "HOL-Library.Multiset"
begin

section \<open>Test Permiso: a shallow embedding of app.py\<close>

text \<open>
  The program loads a bank of multiple-choice questions from a semicolon-delimited file,
  draws an exam of 20 questions by topic quota, walks the user through it and grades it.
  Each block of the script is embedded as a HOL function. Exceptions are values of the
  type \<open>error\<close>, returned on the left of a sum. A string is Python's string in UTF-8:
  the list of its bytes.
\<close>

subsection \<open>Constants\<close>

definition PASS_SCORE :: nat where
  "PASS_SCORE = 16"

definition EXAM_SIZE :: int where
  "EXAM_SIZE = 20"

text \<open>The dictionary literal, in its insertion order, which is the order \<open>items()\<close> yields.\<close>

definition TOPIC_DISTRIBUTION :: "(int \<times> nat) list" where
  "TOPIC_DISTRIBUTION = [(1, 3), (2, 3), (3, 2), (4, 3), (5, 3), (6, 3), (7, 3)]"

definition CSV_FILENAME :: string where
  "CSV_FILENAME = ''preguntas.csv''"

datatype error =
    FileNotFoundError string
  | ValueError string
  | IndexError string
  | KeyError string
  | ReadError string

subsection \<open>Python's string operations\<close>

text \<open>
  \<open>str.strip()\<close> removes leading and trailing whitespace: the characters for which
  \<open>str.isspace()\<close> holds. They are the space, the control characters 9 to 13 and 28 to
  31, and U+0085, U+00A0, U+1680, U+2000 to U+200A, U+2028, U+2029, U+202F, U+205F and
  U+3000, here in UTF-8 (so U+00A0 is the two bytes C2 A0; a byte A0 alone is no
  character). \<open>lstrip\<close> removes such characters from the front as long as there is
  one.
\<close>

definition whitespace :: "string list" where
  "whitespace =
     map (\<lambda>c. [c]) [CHR '' '', CHR 0x09, CHR 0x0A, CHR 0x0B, CHR 0x0C, CHR 0x0D,
                      CHR 0x1C, CHR 0x1D, CHR 0x1E, CHR 0x1F]
     @ [[CHR 0xC2, CHR 0x85], [CHR 0xC2, CHR 0xA0], [CHR 0xE1, CHR 0x9A, CHR 0x80]]
     @ map (\<lambda>c. [CHR 0xE2, CHR 0x80, c])
         [CHR 0x80, CHR 0x81, CHR 0x82, CHR 0x83, CHR 0x84, CHR 0x85, CHR 0x86, CHR 0x87,
          CHR 0x88, CHR 0x89, CHR 0x8A, CHR 0xA8, CHR 0xA9, CHR 0xAF]
     @ [[CHR 0xE2, CHR 0x81, CHR 0x9F], [CHR 0xE3, CHR 0x80, CHR 0x80]]"

function lstrip :: "string list \<Rightarrow> string \<Rightarrow> string" where
  "lstrip ws s =
     (case find (\<lambda>w. w \<noteq> [] \<and> take (length w) s = w) ws of
        None \<Rightarrow> s
      | Some w \<Rightarrow> lstrip ws (drop (length w) s))"
  by pat_completeness auto
termination
proof (relation "measure (\<lambda>(ws, s). length s)")
  show "wf (measure (\<lambda>(ws, s). length s))" by simp
next
  fix ws :: "string list" and s w :: string
  assume "find (\<lambda>w. w \<noteq> [] \<and> take (length w) s = w) ws = Some w"
  then have w: "w \<noteq> []" "take (length w) s = w" by (auto simp: find_Some_iff)
  then have "s \<noteq> []" by auto
  with w show "((ws, drop (length w) s), (ws, s)) \<in> measure (\<lambda>(ws, s). length s)"
    by (cases w) auto
qed

declare lstrip.simps [simp del]

definition py_strip :: "string \<Rightarrow> string" where
  "py_strip s = rev (lstrip (map rev whitespace) (rev (lstrip whitespace s)))"

text \<open>
  \<open>str.upper()\<close> on the ASCII letters; every other byte is kept. The program only
  asks whether the result is \<open>A\<close>, \<open>B\<close> or \<open>C\<close>, and no character outside ASCII
  has one of these as its uppercase form.
\<close>

definition upper_char :: "char \<Rightarrow> char" where
  "upper_char c =
     (case map_of (zip ''abcdefghijklmnopqrstuvwxyz'' ''ABCDEFGHIJKLMNOPQRSTUVWXYZ'') c of
        None \<Rightarrow> c
      | Some u \<Rightarrow> u)"

definition py_upper :: "string \<Rightarrow> string" where
  "py_upper s = map upper_char s"

text \<open>\<open>str(n)\<close> of an integer: its decimal digits, with a minus sign when negative.\<close>

definition digit_char :: "nat \<Rightarrow> char" where
  "digit_char d = ''0123456789'' ! d"

fun str_nat :: "nat \<Rightarrow> string" where
  "str_nat n = (if n < 10 then [digit_char n] else str_nat (n div 10) @ [digit_char (n mod 10)])"

declare str_nat.simps [simp del]

definition py_str :: "int \<Rightarrow> string" where
  "py_str i = (if i < 0 then CHR ''-'' # str_nat (nat (- i)) else str_nat (nat i))"

text \<open>
  \<open>int(s)\<close> of a string: surrounding whitespace is ignored, a sign may precede the
  decimal digits, and anything else raises ValueError (here \<open>None\<close>). Digit grouping
  with underscores is left out: the only strings the program converts are equal to
  \<open>str(topic)\<close> for a topic of the quota table.
\<close>

definition digit_val :: "char \<Rightarrow> nat option" where
  "digit_val c = map_of (zip ''0123456789'' [0, 1, 2, 3, 4, 5, 6, 7, 8, 9]) c"

fun parse_digits :: "nat \<Rightarrow> string \<Rightarrow> nat option" where
  "parse_digits acc [] = Some acc"
| "parse_digits acc (c # cs) =
     (case digit_val c of
        None \<Rightarrow> None
      | Some d \<Rightarrow> parse_digits (10 * acc + d) cs)"

definition py_int :: "string \<Rightarrow> int option" where
  "py_int s =
     (case py_strip s of
        [] \<Rightarrow> None
      | c # cs \<Rightarrow>
          if c = CHR ''-'' then
            (if cs = [] then None else map_option (\<lambda>n. - int n) (parse_digits 0 cs))
          else if c = CHR ''+'' then
            (if cs = [] then None else map_option int (parse_digits 0 cs))
          else map_option int (parse_digits 0 (c # cs)))"

text \<open>
  \<open>repr\<close> of a string and of a list of strings, as an f-string prints them. The strings
  printed by the program (the names of the required columns) need no escaping.
\<close>

definition repr_str :: "string \<Rightarrow> string" where
  "repr_str s = [CHR 0x27] @ s @ [CHR 0x27]"

fun join_strs :: "string \<Rightarrow> string list \<Rightarrow> string" where
  "join_strs sep [] = []"
| "join_strs sep [s] = s"
| "join_strs sep (s # t # ss) = s @ sep @ join_strs sep (t # ss)"

definition repr_list :: "string list \<Rightarrow> string" where
  "repr_list ss = ''['' @ join_strs '', '' (map repr_str ss) @ '']''"

subsection \<open>The question bank loader\<close>

text \<open>
  A data frame is its column names and its rows; a row maps a column name to the cell.
  \<open>pd.read_csv(path, sep=";", dtype=str)\<close> delivers cells that are strings or NaN
  (\<open>None\<close>). The file system maps a path to what \<open>read_csv\<close> makes of the file there:
  nothing when the path does not exist, the exception it raises when the file cannot be
  parsed, and the parsed frame otherwise.
\<close>

record 'c frame =
  columns :: "string list"
  rows :: "(string \<Rightarrow> 'c) list"

type_synonym row = "string \<Rightarrow> string"

type_synonym filesystem = "string \<Rightarrow> (error + string option frame) option"

definition fillna :: "string \<Rightarrow> string option frame \<Rightarrow> string frame" where
  "fillna v t =
     \<lparr>columns = columns t,
      rows = map (\<lambda>r c. case r c of None \<Rightarrow> v | Some s \<Rightarrow> s) (rows t)\<rparr>"

text \<open>\<open>df[c] = df[c].str.f()\<close>: the column is replaced, cell by cell.\<close>

definition assign_col :: "string \<Rightarrow> (string \<Rightarrow> string) \<Rightarrow> string frame \<Rightarrow> string frame" where
  "assign_col c f df = df\<lparr>rows := map (\<lambda>r. r(c := f (r c))) (rows df)\<rparr>"

definition col :: "string frame \<Rightarrow> string \<Rightarrow> string list" where
  "col df c = map (\<lambda>r. r c) (rows df)"

definition required :: "string list" where
  "required = [''tema'', ''enunciado'', ''A'', ''B'', ''C'', ''correcta'']"

definition msg_not_found :: "string \<Rightarrow> string" where
  "msg_not_found path =
     ''No existe '' @ path @ ''. Pon preguntas.csv en la misma carpeta que app.py.''"

definition msg_missing :: "string list \<Rightarrow> string" where
  "msg_missing missing =
     ''Faltan columnas: '' @ repr_list missing @ ''. Debe haber: '' @ repr_list required"

text \<open>The accented letters of the messages are their two UTF-8 bytes.\<close>

definition msg_temas :: string where
  "msg_temas = ''Hay temas inv'' @ [CHR 0xC3, CHR 0xA1] @ ''lidos. Deben ser 1..7.''"

definition msg_correcta :: string where
  "msg_correcta = ''La columna '' @ repr_str ''correcta'' @ '' debe ser A/B/C (sin espacios).''"

definition msg_vacias :: string where
  "msg_vacias = ''Hay filas con enunciado u opciones vac'' @ [CHR 0xC3, CHR 0xAD]
     @ ''as. Revisa tu Excel/CSV.''"

definition empty_fields :: "row \<Rightarrow> bool" where
  "empty_fields r =
     (py_strip (r ''enunciado'') = [] \<or> py_strip (r ''A'') = []
      \<or> py_strip (r ''B'') = [] \<or> py_strip (r ''C'') = [])"

definition load_questions :: "filesystem \<Rightarrow> string \<Rightarrow> error + string frame" where
  "load_questions fs path =
     (case fs path of
        None \<Rightarrow> Inl (FileNotFoundError (msg_not_found path))
      | Some (Inl e) \<Rightarrow> Inl e
      | Some (Inr t) \<Rightarrow>
          let df0 = fillna [] t;
              missing = filter (\<lambda>c. c \<notin> set (columns df0)) required
          in
            if missing \<noteq> [] then Inl (ValueError (msg_missing missing))
            else
              let df1 = assign_col ''tema'' py_strip df0;
                  df = assign_col ''correcta'' (\<lambda>s. py_upper (py_strip s)) df1
              in
                if \<not> set (col df ''tema'') \<subseteq> set (map py_str [1..7]) then
                  Inl (ValueError msg_temas)
                else if \<not> set (col df ''correcta'') \<subseteq> set [''A'', ''B'', ''C''] then
                  Inl (ValueError msg_correcta)
                else
                  let bad = filter empty_fields (rows df) in
                  if length bad > 0 then Inl (ValueError msg_vacias)
                  else Inr df)"

text \<open>
  The call as a step on the file system. \<open>os.path.exists\<close> and \<open>pd.read_csv\<close> read
  the file system and write nothing, and every assignment of the function is to its local
  \<open>df\<close>, so the file system after the call is the one before it.
\<close>

definition load_questions_step ::
  "filesystem \<Rightarrow> string \<Rightarrow> (error + string frame) \<times> filesystem" where
  "load_questions_step fs path = (load_questions fs path, fs)"

subsection \<open>Random numbers\<close>

text \<open>
  The program draws from two generators: Python's global one (\<open>random.randint\<close>,
  \<open>random.shuffle\<close>) and, inside \<open>pool.sample\<close>, a numpy generator seeded with the
  integer that \<open>randint\<close> returned. A generator is the stream of raw numbers it will
  deliver; a number below \<open>n\<close> is the next raw number reduced modulo \<open>n\<close>.
\<close>

type_synonym draws = "nat \<Rightarrow> nat"

record rng =
  py_random :: draws
  np_random :: "nat \<Rightarrow> draws"

definition randbelow :: "nat \<Rightarrow> nat \<Rightarrow> nat" where
  "randbelow n raw = raw mod n"

text \<open>
  \<open>random.shuffle(x)\<close>, and numpy's, is the loop
  \<^verbatim>\<open>for i in reversed(range(1, len(x))): j = randbelow(i + 1); x[i], x[j] = x[j], x[i]\<close>
\<close>

fun shuffle_loop :: "nat \<Rightarrow> draws \<Rightarrow> 'a list \<Rightarrow> 'a list" where
  "shuffle_loop 0 ds x = x"
| "shuffle_loop (Suc k) ds x =
     (let i = Suc k;
          j = randbelow (i + 1) (ds 0)
      in shuffle_loop k (\<lambda>m. ds (Suc m)) (x[i := x ! j, j := x ! i]))"

definition shuffle :: "draws \<Rightarrow> 'a list \<Rightarrow> 'a list" where
  "shuffle ds x = shuffle_loop (length x - 1) ds x"

text \<open>
  \<open>pool.sample(n=n, replace=False, random_state=seed)\<close> with \<open>n \<le> len(pool)\<close>: the
  positions are the first \<open>n\<close> entries of a random permutation of \<open>range(len(pool))\<close>,
  and the rows at these positions are taken in that order.
\<close>

definition sample :: "nat \<Rightarrow> draws \<Rightarrow> 'a list \<Rightarrow> 'a list" where
  "sample n ds pool = map (\<lambda>k. pool ! k) (take n (shuffle ds [0..<length pool]))"

subsection \<open>The exam generator\<close>

record question =
  q_tema :: int
  q_enunciado :: string
  q_opciones :: "string \<Rightarrow> string option"
  q_correcta :: string

definition msg_int :: "string \<Rightarrow> string" where
  "msg_int s = ''invalid literal for int() with base 10: '' @ repr_str s"

definition msg_pool :: "int \<Rightarrow> nat \<Rightarrow> nat \<Rightarrow> string" where
  "msg_pool topic n have =
     ''En el tema '' @ py_str topic @ '' necesitas '' @ py_str (int n)
       @ '' preguntas y solo tienes '' @ py_str (int have) @ ''.''"

text \<open>The dictionary built from one sampled row; \<open>int(r["tema"])\<close> may raise.\<close>

definition to_question :: "row \<Rightarrow> error + question" where
  "to_question r =
     (case py_int (r ''tema'') of
        None \<Rightarrow> Inl (ValueError (msg_int (r ''tema'')))
      | Some t \<Rightarrow>
          Inr \<lparr>q_tema = t,
               q_enunciado = r ''enunciado'',
               q_opciones = [''A'' \<mapsto> r ''A'', ''B'' \<mapsto> r ''B'', ''C'' \<mapsto> r ''C''],
               q_correcta = r ''correcta''\<rparr>)"

text \<open>The inner loop: \<open>for _, r in sample.iterrows(): exam.append({...})\<close>.\<close>

fun append_rows :: "question list \<Rightarrow> row list \<Rightarrow> error + question list" where
  "append_rows exam [] = Inr exam"
| "append_rows exam (r # rs) =
     (case to_question r of
        Inl e \<Rightarrow> Inl e
      | Inr q \<Rightarrow> append_rows (exam @ [q]) rs)"

text \<open>
  The outer loop over \<open>TOPIC_DISTRIBUTION.items()\<close>. It threads the exam built so far
  and Python's generator, of which each \<open>randint(0, 10**9)\<close> consumes one number.
\<close>

fun topic_loop ::
  "rng \<Rightarrow> string frame \<Rightarrow> (int \<times> nat) list \<Rightarrow> draws \<Rightarrow> question list
     \<Rightarrow> error + (question list \<times> draws)" where
  "topic_loop g df [] py exam = Inr (exam, py)"
| "topic_loop g df ((topic, n) # items) py exam =
     (let pool = filter (\<lambda>r. r ''tema'' = py_str topic) (rows df) in
      if length pool < n then Inl (ValueError (msg_pool topic n (length pool)))
      else
        let seed = randbelow (10 ^ 9 + 1) (py 0);
            smp = sample n (np_random g seed) pool
        in case append_rows exam smp of
             Inl e \<Rightarrow> Inl e
           | Inr exam' \<Rightarrow> topic_loop g df items (\<lambda>m. py (Suc m)) exam')"

definition generate_exam :: "rng \<Rightarrow> string frame \<Rightarrow> error + question list" where
  "generate_exam g df =
     (case topic_loop g df TOPIC_DISTRIBUTION (py_random g) [] of
        Inl e \<Rightarrow> Inl e
      | Inr (exam, py) \<Rightarrow> Inr (shuffle py exam))"

text \<open>
  The same computation with the index label of the source row kept beside each record
  (the label that \<open>iterrows()\<close> yields and the program drops). \<open>read_csv\<close> labels the
  rows \<open>0, 1, 2, ...\<close>, and selecting rows keeps their labels.
\<close>

definition labelled :: "string frame \<Rightarrow> (nat \<times> row) list" where
  "labelled df = zip [0..<length (rows df)] (rows df)"

fun append_rows_traced ::
  "(nat \<times> question) list \<Rightarrow> (nat \<times> row) list \<Rightarrow> error + (nat \<times> question) list" where
  "append_rows_traced exam [] = Inr exam"
| "append_rows_traced exam ((l, r) # rs) =
     (case to_question r of
        Inl e \<Rightarrow> Inl e
      | Inr q \<Rightarrow> append_rows_traced (exam @ [(l, q)]) rs)"

fun topic_loop_traced ::
  "rng \<Rightarrow> string frame \<Rightarrow> (int \<times> nat) list \<Rightarrow> draws \<Rightarrow> (nat \<times> question) list
     \<Rightarrow> error + ((nat \<times> question) list \<times> draws)" where
  "topic_loop_traced g df [] py exam = Inr (exam, py)"
| "topic_loop_traced g df ((topic, n) # items) py exam =
     (let pool = filter (\<lambda>(l, r). r ''tema'' = py_str topic) (labelled df) in
      if length pool < n then Inl (ValueError (msg_pool topic n (length pool)))
      else
        let seed = randbelow (10 ^ 9 + 1) (py 0);
            smp = sample n (np_random g seed) pool
        in case append_rows_traced exam smp of
             Inl e \<Rightarrow> Inl e
           | Inr exam' \<Rightarrow> topic_loop_traced g df items (\<lambda>m. py (Suc m)) exam')"

definition generate_exam_traced :: "rng \<Rightarrow> string frame \<Rightarrow> error + (nat \<times> question) list" where
  "generate_exam_traced g df =
     (case topic_loop_traced g df TOPIC_DISTRIBUTION (py_random g) [] of
        Inl e \<Rightarrow> Inl e
      | Inr (exam, py) \<Rightarrow> Inr (shuffle py exam))"

subsection \<open>The session\<close>

text \<open>
  \<open>st.session_state\<close> holds the exam (or \<open>None\<close>), the cursor and the answers, a
  dictionary from question index to the chosen key.
\<close>

record session =
  exam :: "question list option"
  idx :: int
  answers :: "int \<Rightarrow> string option"

definition reset :: "session \<Rightarrow> session" where
  "reset s = s\<lparr>exam := None, idx := 0, answers := Map.empty\<rparr>"

text \<open>
  The handler of the Generate button: the three assignments happen only when
  \<open>generate_exam\<close> returns; when it raises, the message is shown and nothing is assigned.
\<close>

definition msg_generar :: "error \<Rightarrow> string" where
  "msg_generar e =
     ''No se pudo generar el examen: ''
       @ (case e of FileNotFoundError m \<Rightarrow> m | ValueError m \<Rightarrow> m
          | IndexError m \<Rightarrow> m | KeyError k \<Rightarrow> repr_str k | ReadError m \<Rightarrow> m)"

definition generar :: "rng \<Rightarrow> string frame \<Rightarrow> session \<Rightarrow> session \<times> string option" where
  "generar g df s =
     (case generate_exam g df of
        Inr ex \<Rightarrow> (s\<lparr>exam := Some ex, idx := 0, answers := Map.empty\<rparr>, None)
      | Inl e \<Rightarrow> (s, Some (msg_generar e)))"

text \<open>Python's \<open>x[i]\<close> on a list: a negative index counts from the end.\<close>

definition getitem :: "'a list \<Rightarrow> int \<Rightarrow> error + 'a" where
  "getitem xs i =
     (if 0 \<le> i \<and> i < int (length xs) then Inr (xs ! nat i)
      else if i < 0 \<and> - int (length xs) \<le> i then Inr (xs ! nat (int (length xs) + i))
      else Inl (IndexError ''list index out of range''))"

definition keys :: "string list" where
  "keys = [''A'', ''B'', ''C'']"

fun index_of :: "'a \<Rightarrow> 'a list \<Rightarrow> nat" where
  "index_of k [] = 0"
| "index_of k (x # xs) = (if x = k then 0 else Suc (index_of k xs))"

definition default_index :: "string option \<Rightarrow> nat" where
  "default_index current =
     (case current of
        None \<Rightarrow> 0
      | Some c \<Rightarrow> if c \<in> set keys then index_of c keys else 0)"

text \<open>
  The labels of the options: \<open>{k: f"{k}) {q['opciones'][k]}" for k in keys}\<close>, as the
  list of the pairs of a key and its label.
\<close>

fun make_labels :: "question \<Rightarrow> string list \<Rightarrow> error + (string \<times> string) list" where
  "make_labels q [] = Inr []"
| "make_labels q (k # ks) =
     (case q_opciones q k of
        None \<Rightarrow> Inl (KeyError k)
      | Some v \<Rightarrow>
          (case make_labels q ks of
             Inl e \<Rightarrow> Inl e
           | Inr ls \<Rightarrow> Inr ((k, k @ '') '' @ v) # ls)))"

text \<open>
  \<open>st.radio(label, options, format_func=..., index=default_index)\<close> is called without a
  key, so Streamlit identifies the widget by its parameters: the label, the formatted
  options and the index. It returns the value it keeps for the widget of that identity
  (the last pick of the user on it, made on this question or on an earlier one whose
  widget had the same identity), and the option at \<open>index\<close> when it keeps none. What
  Streamlit keeps is the widget state, given to each run of the script.
\<close>

type_synonym widget_id = "string \<times> string list \<times> nat"

type_synonym widget_state = "widget_id \<Rightarrow> string option"

definition st_radio :: "widget_state \<Rightarrow> string \<Rightarrow> string list \<Rightarrow> string list \<Rightarrow> nat \<Rightarrow> string" where
  "st_radio w label options formatted i =
     (case w (label, formatted, i) of None \<Rightarrow> options ! i | Some k \<Rightarrow> k)"

text \<open>
  The render step (the script from \<open>exam = st.session_state.exam\<close> to
  \<open>st.session_state.answers[idx] = choice\<close>), reached only when an exam is present.
\<close>

definition render :: "widget_state \<Rightarrow> session \<Rightarrow> error + session" where
  "render w s =
     (case exam s of
        None \<Rightarrow> Inr s
      | Some ex \<Rightarrow>
          (case getitem ex (idx s) of
             Inl e \<Rightarrow> Inl e
           | Inr q \<Rightarrow>
               (case make_labels q keys of
                  Inl e \<Rightarrow> Inl e
                | Inr labels \<Rightarrow>
                    let current = answers s (idx s);
                        choice = st_radio w ''Respuesta:'' keys (map snd labels)
                                   (default_index current)
                    in Inr (s\<lparr>answers := (answers s)(idx s \<mapsto> choice)\<rparr>))))"

text \<open>
  The navigation buttons. A disabled button cannot be pressed (\<open>st.button\<close> returns
  \<open>False\<close>), so its body does not run.
\<close>

definition anterior :: "session \<Rightarrow> session" where
  "anterior s = (if idx s = 0 then s else s\<lparr>idx := idx s - 1\<rparr>)"

definition siguiente :: "session \<Rightarrow> session" where
  "siguiente s = (if idx s = EXAM_SIZE - 1 then s else s\<lparr>idx := idx s + 1\<rparr>)"

subsection \<open>Grading\<close>

text \<open>
  The handler of the Finish button computes the two counters, the verdict and the list of
  missed questions, and shows them; it assigns nothing to the session.
\<close>

record grading =
  correct :: nat
  wrong :: nat
  passed :: bool
  review :: "(nat \<times> question \<times> string option) list"

fun count_loop ::
  "(int \<Rightarrow> string option) \<Rightarrow> nat \<Rightarrow> question list \<Rightarrow> nat \<times> nat \<Rightarrow> nat \<times> nat" where
  "count_loop ans i [] (c, w) = (c, w)"
| "count_loop ans i (qq # qs) (c, w) =
     (if ans (int i) = Some (q_correcta qq) then count_loop ans (Suc i) qs (c + 1, w)
      else count_loop ans (Suc i) qs (c, w + 1))"

fun review_loop ::
  "(int \<Rightarrow> string option) \<Rightarrow> nat \<Rightarrow> question list \<Rightarrow> (nat \<times> question \<times> string option) list" where
  "review_loop ans i [] = []"
| "review_loop ans i (qq # qs) =
     (let a = ans (int i) in
      if a \<noteq> Some (q_correcta qq) then (i, qq, a) # review_loop ans (Suc i) qs
      else review_loop ans (Suc i) qs)"

definition grade :: "question list \<Rightarrow> (int \<Rightarrow> string option) \<Rightarrow> grading" where
  "grade ex ans =
     (let (c, w) = count_loop ans 0 ex (0, 0) in
      \<lparr>correct = c, wrong = w, passed = (c \<ge> PASS_SCORE), review = review_loop ans 0 ex\<rparr>)"

definition finalizar :: "session \<Rightarrow> session \<times> grading option" where
  "finalizar s =
     (case exam s of
        None \<Rightarrow> (s, None)
      | Some ex \<Rightarrow> (s, Some (grade ex (answers s))))"

section \<open>Notions used in the statements\<close>

subsection \<open>The loader\<close>

text \<open>
  The row that \<open>fillna("")\<close> makes of a row of the file, and the row that the two column
  assignments of \<open>load_questions\<close> make of it.
\<close>

definition cells :: "(string \<Rightarrow> string option) \<Rightarrow> row" where
  "cells r c = (case r c of None \<Rightarrow> [] | Some s \<Rightarrow> s)"

definition normalised :: "row \<Rightarrow> row" where
  "normalised r =
     r(''tema'' := py_strip (r ''tema''), ''correcta'' := py_upper (py_strip (r ''correcta'')))"

definition missing_columns :: "string option frame \<Rightarrow> string list" where
  "missing_columns t = filter (\<lambda>c. c \<notin> set (columns t)) required"

definition topic_names :: "string list" where
  "topic_names = map (\<lambda>d. [d]) ''1234567''"

text \<open>The three violations a row of the file can have.\<close>

definition tema_invalid :: "(string \<Rightarrow> string option) \<Rightarrow> bool" where
  "tema_invalid r = (py_strip (cells r ''tema'') \<notin> set topic_names)"

definition correcta_invalid :: "(string \<Rightarrow> string option) \<Rightarrow> bool" where
  "correcta_invalid r = (py_upper (py_strip (cells r ''correcta'')) \<notin> set [''A'', ''B'', ''C''])"

definition fields_empty :: "(string \<Rightarrow> string option) \<Rightarrow> bool" where
  "fields_empty r = empty_fields (cells r)"

subsection \<open>The generator\<close>

text \<open>The positions that \<open>sample\<close> takes from a pool of \<open>m\<close> rows.\<close>

definition positions :: "nat \<Rightarrow> draws \<Rightarrow> nat \<Rightarrow> nat list" where
  "positions n ds m = take n (shuffle ds [0..<m])"

text \<open>
  What the loop keeps true: the records appended for one topic come from distinct rows of
  that topic (\<open>block_ok\<close>), and the records appended for a list of topics come from
  distinct rows, with as many records of each topic as its quota (\<open>loop_ok\<close>).
\<close>

definition block_ok :: "string frame \<Rightarrow> int \<Rightarrow> (nat \<times> question) list \<Rightarrow> bool" where
  "block_ok df t blk =
     (distinct (map fst blk) \<and>
      (\<forall>(l, q) \<in> set blk. l < length (rows df) \<and> to_question (rows df ! l) = Inr q \<and> q_tema q = t))"

definition loop_ok :: "string frame \<Rightarrow> (int \<times> nat) list \<Rightarrow> (nat \<times> question) list \<Rightarrow> bool" where
  "loop_ok df items new =
     (length new = sum_list (map snd items) \<and>
      distinct (map fst new) \<and>
      (\<forall>(l, q) \<in> set new. l < length (rows df) \<and> to_question (rows df ! l) = Inr q
          \<and> q_tema q \<in> fst ` set items) \<and>
      (\<forall>(t, n) \<in> set items. length (filter (\<lambda>(l, q). q_tema q = t) new) = n))"

subsection \<open>Grading\<close>

text \<open>A pair of \<open>enumerate(exam)\<close> whose recorded answer is not the correct key.\<close>

definition missed :: "(int \<Rightarrow> string option) \<Rightarrow> nat \<times> question \<Rightarrow> bool" where
  "missed ans p = (ans (int (fst p)) \<noteq> Some (q_correcta (snd p)))"


subsection \<open>Runs of the script on one exam\<close>

text \<open>
  Between a Generate and the next Generate or Reset, what the script does to the session
  is a sequence of these steps: it renders the question at the cursor (with the widget
  state of that run), or the body of the Previous or Next button runs, or the Finish
  handler does. Beside the session a run keeps the set of the cursors whose question was
  displayed: a render that reaches \<open>st.radio\<close> displays the question at the cursor.
\<close>

datatype step = Draw widget_state | Previous | Next | Finish

fun run_step :: "step \<Rightarrow> session \<times> int set \<Rightarrow> session \<times> int set" where
  "run_step (Draw w) (s, shown) =
     (case exam s of
        None \<Rightarrow> (s, shown)
      | Some ex \<Rightarrow>
          (case render w s of
             Inl e \<Rightarrow> (s, shown)
           | Inr s' \<Rightarrow> (s', insert (idx s) shown)))"
| "run_step Previous (s, shown) = (anterior s, shown)"
| "run_step Next (s, shown) = (siguiente s, shown)"
| "run_step Finish (s, shown) = (fst (finalizar s), shown)"

definition run :: "step list \<Rightarrow> session \<times> int set \<Rightarrow> session \<times> int set" where
  "run steps st = fold run_step steps st"

section \<open>Example inputs\<close>

text \<open>A generator, two banks, an exam, four sessions and two widget states, used to run the
  theorems.\<close>

definition rng0 :: rng where
  "rng0 = \<lparr>py_random = (\<lambda>i. 7 * i + 3), np_random = (\<lambda>seed i. seed + 5 * i)\<rparr>"

definition bank_row :: "string \<Rightarrow> row" where
  "bank_row t c = (if c = ''tema'' then t else if c = ''correcta'' then ''A'' else ''x'')"

definition bank_of :: "string list \<Rightarrow> string frame" where
  "bank_of ts = \<lparr>columns = required, rows = map bank_row ts\<rparr>"

definition bank_min :: "string frame" where
  "bank_min = bank_of (map (\<lambda>d. [d]) ''11122233444555666777'')"

definition bank_short :: "string frame" where
  "bank_short = bank_of (map (\<lambda>d. [d]) ''1112223444555666777'')"

definition question_A :: "int \<Rightarrow> question" where
  "question_A t = \<lparr>q_tema = t, q_enunciado = ''x'',
     q_opciones = [''A'' \<mapsto> ''x'', ''B'' \<mapsto> ''y'', ''C'' \<mapsto> ''z''], q_correcta = ''A''\<rparr>"

definition exam_A :: "question list" where
  "exam_A = map question_A [4, 1, 7, 2, 5, 1, 3, 6, 2, 7, 4, 5, 1, 6, 3, 2, 7, 4, 5, 6]"

definition session_fresh :: session where
  "session_fresh = \<lparr>exam = Some exam_A, idx = 0, answers = Map.empty\<rparr>"

definition session_seen :: session where
  "session_seen = \<lparr>exam = Some exam_A, idx = 0, answers = [0 \<mapsto> ''A'']\<rparr>"

definition session_last :: session where
  "session_last = \<lparr>exam = Some exam_A, idx = 19, answers = [0 \<mapsto> ''A'']\<rparr>"

definition session_both_B :: session where
  "session_both_B = \<lparr>exam = Some exam_A, idx = 1, answers = [0 \<mapsto> ''B'', 1 \<mapsto> ''B'']\<rparr>"

definition all_A :: "int \<Rightarrow> string option" where
  "all_A i = Some ''A''"

text \<open>
  The widget state with nothing kept, and the one that keeps a pick of B on the radio
  with the option labels of \<open>question_A\<close> and index 0.
\<close>

definition widgets_none :: widget_state where
  "widgets_none i = None"

definition widgets_B :: widget_state where
  "widgets_B i =
     (if i = (''Respuesta:'', [''A) x'', ''B) y'', ''C) z''], 0) then Some ''B'' else None)"

text \<open>
  Files, as \<open>read_csv\<close> parses them: a row is the map from the column names to the
  cells, and a name with no cell is a NaN. \<open>fs_with\<close> is the file system that has the
  one file at \<open>CSV_FILENAME\<close>. The bytes C2 A0 are the no-break space U+00A0.
\<close>

definition fs_with :: "string option frame \<Rightarrow> filesystem" where
  "fs_with t p = (if p = CSV_FILENAME then Some (Inr t) else None)"

definition table_untrimmed :: "string option frame" where
  "table_untrimmed = \<lparr>columns = required,
     rows = [map_of [(''tema'', [CHR '' '', CHR ''1'', CHR 0xC2, CHR 0xA0]),
                     (''enunciado'', '' Q ''), (''A'', '' a''),
                     (''B'', ''b ''), (''C'', ''c''), (''correcta'', '' a '')]]\<rparr>"

definition table_missing :: "string option frame" where
  "table_missing = \<lparr>columns = [''tema'', ''enunciado'', ''A'', ''B''],
     rows = [map_of [(''tema'', ''1''), (''enunciado'', ''Q''), (''A'', ''a''),
                     (''B'', ''b'')]]\<rparr>"

definition table_topic8 :: "string option frame" where
  "table_topic8 = \<lparr>columns = required,
     rows = [map_of [(''tema'', ''8''), (''enunciado'', ''Q''), (''A'', ''a''),
                     (''B'', ''b''), (''C'', ''c''), (''correcta'', ''D'')]]\<rparr>"

definition table_keyD :: "string option frame" where
  "table_keyD = \<lparr>columns = required,
     rows = [map_of [(''tema'', ''1''), (''enunciado'', ''''), (''A'', ''a''),
                     (''B'', ''b''), (''C'', ''c''), (''correcta'', ''D'')]]\<rparr>"

definition table_no_statement :: "string option frame" where
  "table_no_statement = \<lparr>columns = required,
     rows = [map_of [(''tema'', ''1''), (''enunciado'', [CHR 0xC2, CHR 0xA0, CHR '' '']),
                     (''A'', ''a''),
                     (''B'', ''b''), (''C'', ''c''), (''correcta'', ''b'')]]\<rparr>"

definition table_nan_tema :: "string option frame" where
  "table_nan_tema = \<lparr>columns = required,
     rows = [map_of [(''enunciado'', ''Q''), (''A'', ''a''),
                     (''B'', ''b''), (''C'', ''c''), (''correcta'', ''A'')]]\<rparr>"

definition column_of :: "error + string frame \<Rightarrow> string \<Rightarrow> error + string list" where
  "column_of res c = (case res of Inl e \<Rightarrow> Inl e | Inr df \<Rightarrow> Inr (col df c))"

section \<open>Properties\<close>

subsection \<open>Values of the string operations\<close>

lemma py_str_digits:
  "py_str 0 = ''0''" "py_str 1 = ''1''" "py_str 2 = ''2''" "py_str 3 = ''3''" "py_str 4 = ''4''"
  "py_str 5 = ''5''" "py_str 6 = ''6''" "py_str 7 = ''7''"
  by (simp_all add: py_str_def str_nat.simps digit_char_def)

lemma strip_values:
  "py_strip [] = []"
  "py_strip ''1'' = ''1''" "py_strip ''2'' = ''2''" "py_strip ''3'' = ''3''"
  "py_strip ''4'' = ''4''" "py_strip ''5'' = ''5''" "py_strip ''6'' = ''6''"
  "py_strip ''7'' = ''7''" "py_strip ''8'' = ''8''"
  "py_strip ''Q'' = ''Q''" "py_strip ''a'' = ''a''" "py_strip ''b'' = ''b''"
  "py_strip ''c'' = ''c''" "py_strip ''A'' = ''A''" "py_strip ''D'' = ''D''"
  "py_strip '' Q '' = ''Q''" "py_strip '' a'' = ''a''" "py_strip ''b '' = ''b''"
  "py_strip '' a '' = ''a''"
  "py_strip [CHR '' '', CHR ''1'', CHR 0xC2, CHR 0xA0] = ''1''"
  "py_strip [CHR 0xC2, CHR 0xA0, CHR '' ''] = []"
  by (simp_all add: py_strip_def lstrip.simps whitespace_def)

subsection \<open>Shuffling and sampling\<close>

lemma shuffle_loop_length [simp]: "length (shuffle_loop k ds x) = length x"
  by (induction k arbitrary: ds x) (simp_all add: Let_def)

lemma shuffle_loop_mset: "k < length x \<Longrightarrow> mset (shuffle_loop k ds x) = mset x"
proof (induction k arbitrary: ds x)
  case 0
  then show ?case by simp
next
  case (Suc k)
  let ?j = "randbelow (Suc k + 1) (ds 0)"
  have "?j < Suc (Suc k)" by (simp add: randbelow_def)
  with Suc.prems have j: "?j < length x" by linarith
  have "mset (x[Suc k := x ! ?j, ?j := x ! Suc k]) = mset x"
    using Suc.prems j by (simp add: mset_swap)
  moreover have "k < length (x[Suc k := x ! ?j, ?j := x ! Suc k])"
    using Suc.prems by simp
  ultimately show ?case
    using Suc.IH [of "x[Suc k := x ! ?j, ?j := x ! Suc k]" "\<lambda>m. ds (Suc m)"]
    by (simp add: Let_def)
qed

lemma shuffle_mset: "mset (shuffle ds x) = mset x"
  by (cases x) (simp_all add: shuffle_def shuffle_loop_mset)

lemma shuffle_length [simp]: "length (shuffle ds x) = length x"
  by (simp add: shuffle_def)

lemma shuffle_loop_map:
  "k < length x \<Longrightarrow> shuffle_loop k ds (map f x) = map f (shuffle_loop k ds x)"
proof (induction k arbitrary: ds x)
  case 0
  then show ?case by simp
next
  case (Suc k)
  let ?j = "randbelow (Suc k + 1) (ds 0)"
  have "?j < Suc (Suc k)" by (simp add: randbelow_def)
  with Suc.prems have j: "?j < length x" by linarith
  have "(map f x)[Suc k := map f x ! ?j, ?j := map f x ! Suc k]
          = map f (x[Suc k := x ! ?j, ?j := x ! Suc k])"
    using Suc.prems j by (simp add: map_update)
  moreover have "k < length (x[Suc k := x ! ?j, ?j := x ! Suc k])"
    using Suc.prems by simp
  ultimately show ?case
    using Suc.IH [of "x[Suc k := x ! ?j, ?j := x ! Suc k]" "\<lambda>m. ds (Suc m)"]
    by (simp add: Let_def)
qed

lemma shuffle_map: "shuffle ds (map f x) = map f (shuffle ds x)"
proof (cases x)
  case Nil
  then show ?thesis by (simp add: shuffle_def)
next
  case (Cons a list)
  then have "length x - 1 < length x" by simp
  from shuffle_loop_map [OF this] show ?thesis by (simp add: shuffle_def)
qed

lemma shuffle_set [simp]: "set (shuffle ds x) = set x"
  using shuffle_mset [of ds x] by (metis set_mset_mset)

lemma shuffle_distinct [simp]: "distinct (shuffle ds x) = distinct x"
  using shuffle_mset [of ds x] by (metis mset_eq_imp_distinct_iff)

lemma positions_distinct: "distinct (positions n ds m)"
  by (simp add: positions_def)

lemma positions_bound: "k \<in> set (positions n ds m) \<Longrightarrow> k < m"
  by (auto simp: positions_def dest: in_set_takeD)

lemma positions_length: "n \<le> m \<Longrightarrow> length (positions n ds m) = n"
  by (simp add: positions_def)

lemma sample_positions: "sample n ds pool = map (\<lambda>k. pool ! k) (positions n ds (length pool))"
  by (simp add: sample_def positions_def)

lemma sample_length: "n \<le> length pool \<Longrightarrow> length (sample n ds pool) = n"
  by (simp add: sample_positions positions_length)

lemma sample_subset: "x \<in> set (sample n ds pool) \<Longrightarrow> x \<in> set pool"
  by (auto simp: sample_positions dest: positions_bound)

lemma sample_map: "sample n ds (map f pool) = map f (sample n ds pool)"
  by (auto simp: sample_positions dest: positions_bound)

lemma sample_distinct:
  assumes "distinct (map f pool)"
  shows "distinct (map f (sample n ds pool))"
proof -
  have "inj_on (\<lambda>k. map f pool ! k) (set (positions n ds (length pool)))"
  proof (rule inj_onI)
    fix x y
    assume "x \<in> set (positions n ds (length pool))" "y \<in> set (positions n ds (length pool))"
      and eq: "map f pool ! x = map f pool ! y"
    then have "x < length (map f pool)" "y < length (map f pool)"
      by (auto dest: positions_bound)
    with assms eq show "x = y" by (simp only: nth_eq_iff_index_eq)
  qed
  then have "distinct (map (\<lambda>k. map f pool ! k) (positions n ds (length pool)))"
    by (simp add: distinct_map positions_distinct)
  then have "distinct (sample n ds (map f pool))"
    by (simp add: sample_positions)
  then show ?thesis by (simp add: sample_map)
qed

subsection \<open>The loop of the generator\<close>

lemma labelled_fst: "map fst (labelled df) = [0..<length (rows df)]"
  by (simp add: labelled_def)

lemma labelled_snd: "map snd (labelled df) = rows df"
  by (simp add: labelled_def)

lemma labelled_mem: "(l, r) \<in> set (labelled df) \<Longrightarrow> l < length (rows df) \<and> rows df ! l = r"
  by (auto simp: labelled_def set_zip)

lemma labelled_distinct: "distinct (map fst (filter P (labelled df)))"
  by (simp add: distinct_map_filter labelled_fst)

lemma to_question_tema:
  "py_int (r ''tema'') = Some t \<Longrightarrow> \<exists>q. to_question r = Inr q \<and> q_tema q = t"
  by (simp add: to_question_def)

lemma append_rows_traced_ok:
  "\<forall>(l, r) \<in> set rs. \<not> isl (to_question r) \<Longrightarrow>
   append_rows_traced ex rs = Inr (ex @ map (\<lambda>(l, r). (l, projr (to_question r))) rs)"
proof (induction rs arbitrary: ex)
  case Nil
  then show ?case by simp
next
  case (Cons a rs)
  obtain l r where a: "a = (l, r)" by (cases a)
  with Cons.prems obtain q where q: "to_question r = Inr q"
    by (cases "to_question r") auto
  from Cons.prems have "\<forall>(l, r) \<in> set rs. \<not> isl (to_question r)" by simp
  from Cons.IH [OF this, of "ex @ [(l, q)]"] show ?case
    by (simp add: a q)
qed

lemma sample_block:
  assumes rt: "py_int (py_str t) = Some t"
    and smp: "smp = sample n ds (filter (\<lambda>(l, r). r ''tema'' = py_str t) (labelled df))"
  shows "\<exists>blk. append_rows_traced ex smp = Inr (ex @ blk) \<and> length blk = length smp
           \<and> block_ok df t blk"
proof -
  let ?pool = "filter (\<lambda>(l, r). r ''tema'' = py_str t) (labelled df)"
  let ?blk = "map (\<lambda>(l, r). (l, projr (to_question r))) smp"
  have mem: "l < length (rows df) \<and> rows df ! l = r \<and> r ''tema'' = py_str t"
    if "(l, r) \<in> set smp" for l r
  proof -
    from that have "(l, r) \<in> set ?pool" unfolding smp by (rule sample_subset)
    then show ?thesis by (auto dest: labelled_mem)
  qed
  have q: "to_question r = Inr (projr (to_question r)) \<and> q_tema (projr (to_question r)) = t"
    if "(l, r) \<in> set smp" for l r
    using mem [OF that] rt to_question_tema [of r t] by auto
  have "\<forall>(l, r) \<in> set smp. \<not> isl (to_question r)"
  proof (clarify)
    fix l r assume "(l, r) \<in> set smp" "isl (to_question r)"
    with q [of l r] show False by (metis sum.disc(2))
  qed
  then have 1: "append_rows_traced ex smp = Inr (ex @ ?blk)"
    by (rule append_rows_traced_ok)
  have mf: "map fst ?blk = map fst smp"
    by (simp add: comp_def case_prod_beta)
  have "distinct (map fst smp)"
    unfolding smp by (rule sample_distinct) (rule labelled_distinct)
  then have 2: "distinct (map fst ?blk)" by (simp only: mf)
  have 3: "\<forall>(l, q) \<in> set ?blk. l < length (rows df) \<and> to_question (rows df ! l) = Inr q \<and> q_tema q = t"
    using mem q by fastforce
  from 1 2 3 show ?thesis by (auto simp: block_ok_def)
qed

lemma loop_ok_Nil: "loop_ok df [] []"
  by (simp add: loop_ok_def)

lemma loop_ok_Cons:
  assumes blk: "block_ok df t blk" and len: "length blk = n"
    and rest: "loop_ok df items new" and fresh: "t \<notin> fst ` set items"
  shows "loop_ok df ((t, n) # items) (blk @ new)"
proof -
  have b: "l < length (rows df) \<and> to_question (rows df ! l) = Inr q \<and> q_tema q = t"
    if "(l, q) \<in> set blk" for l q
    using blk that by (auto simp: block_ok_def)
  have r: "l < length (rows df) \<and> to_question (rows df ! l) = Inr q \<and> q_tema q \<in> fst ` set items"
    if "(l, q) \<in> set new" for l q
    using rest that by (auto simp: loop_ok_def)
  have disj: "fst ` set blk \<inter> fst ` set new = {}"
  proof (rule ccontr)
    assume "fst ` set blk \<inter> fst ` set new \<noteq> {}"
    then obtain l q q' where 1: "(l, q) \<in> set blk" and 2: "(l, q') \<in> set new" by fastforce
    from b [OF 1] r [OF 2] have "q = q'" "q_tema q = t" "q_tema q' \<in> fst ` set items" by auto
    with fresh show False by simp
  qed
  have d: "distinct (map fst (blk @ new))"
    using blk rest disj by (simp add: block_ok_def loop_ok_def)
  have fb: "filter (\<lambda>(l, q). q_tema q = t) blk = blk"
    using b by (auto simp: filter_id_conv)
  have fn: "filter (\<lambda>(l, q). q_tema q = t) new = []"
    using r fresh by (auto simp: filter_empty_conv)
  have fb': "filter (\<lambda>(l, q). q_tema q = t') blk = []" if "t' \<noteq> t" for t'
    using b that by (auto simp: filter_empty_conv)
  have c: "length (filter (\<lambda>(l, q). q_tema q = t') (blk @ new)) = n'"
    if "(t', n') \<in> set ((t, n) # items)" for t' n'
  proof (cases "t' = t")
    case True
    with that fresh have "n' = n" by force
    with True fb fn len show ?thesis by simp
  next
    case False
    with that have "(t', n') \<in> set items" by simp
    with rest have "length (filter (\<lambda>(l, q). q_tema q = t') new) = n'"
      by (auto simp: loop_ok_def)
    with fb' [OF False] show ?thesis by simp
  qed
  have m: "\<forall>(l, q) \<in> set (blk @ new). l < length (rows df) \<and> to_question (rows df ! l) = Inr q
          \<and> q_tema q \<in> fst ` set ((t, n) # items)"
    using b r by fastforce
  have l: "length (blk @ new) = sum_list (map snd ((t, n) # items))"
    using len rest by (simp add: loop_ok_def)
  from l d m c show ?thesis
    unfolding loop_ok_def by blast
qed

lemma topic_loop_traced_ok:
  assumes "\<forall>(t, n) \<in> set items. py_int (py_str t) = Some t
             \<and> n \<le> length (filter (\<lambda>(l, r). r ''tema'' = py_str t) (labelled df))"
    and "distinct (map fst items)"
  shows "\<exists>new py'. topic_loop_traced g df items py ex = Inr (ex @ new, py') \<and> loop_ok df items new"
  using assms
proof (induction items arbitrary: py ex)
  case Nil
  then show ?case by (simp add: loop_ok_Nil)
next
  case (Cons a items)
  obtain t n where a: "a = (t, n)" by (cases a)
  let ?pool = "filter (\<lambda>(l, r). r ''tema'' = py_str t) (labelled df)"
  let ?smp = "sample n (np_random g (randbelow (10 ^ 9 + 1) (py 0))) ?pool"
  from Cons.prems a have rt: "py_int (py_str t) = Some t" and n: "n \<le> length ?pool"
    by auto
  from sample_block [OF rt refl, of ex n _ df]
  obtain blk where blk: "append_rows_traced ex ?smp = Inr (ex @ blk)"
    "length blk = length ?smp" "block_ok df t blk" by blast
  from n have len: "length blk = n" using blk(2) by (simp add: sample_length)
  from Cons.prems a have fresh: "t \<notin> fst ` set items" by force
  from Cons.prems have
    "\<forall>(t, n) \<in> set items. py_int (py_str t) = Some t
             \<and> n \<le> length (filter (\<lambda>(l, r). r ''tema'' = py_str t) (labelled df))"
    "distinct (map fst items)" by auto
  from Cons.IH [OF this, of "\<lambda>m. py (Suc m)" "ex @ blk"]
  obtain new py' where new: "topic_loop_traced g df items (\<lambda>m. py (Suc m)) (ex @ blk)
      = Inr ((ex @ blk) @ new, py')" "loop_ok df items new" by blast
  have "topic_loop_traced g df (a # items) py ex = Inr (ex @ (blk @ new), py')"
    using n blk(1) new(1) by (simp add: a Let_def)
  moreover have "loop_ok df (a # items) (blk @ new)"
    unfolding a using blk(3) len new(2) fresh by (rule loop_ok_Cons)
  ultimately show ?case by blast
qed

lemma pool_labelled:
  "map snd (filter (\<lambda>(l, r). P r) (labelled df)) = filter P (rows df)"
proof -
  have e: "(\<lambda>(l, r). P r) = P \<circ> snd" by auto
  show ?thesis unfolding e by (simp only: filter_map [symmetric] labelled_snd)
qed

lemma pool_labelled_length:
  "length (filter (\<lambda>(l, r). P r) (labelled df)) = length (filter P (rows df))"
  using arg_cong [OF pool_labelled [of P df], of length] by simp

lemma append_rows_refine:
  "append_rows (map snd ex) (map snd rs) = map_sum id (map snd) (append_rows_traced ex rs)"
proof (induction rs arbitrary: ex)
  case Nil
  then show ?case by simp
next
  case (Cons a rs)
  obtain l r where a: "a = (l, r)" by (cases a)
  show ?case
  proof (cases "to_question r")
    case (Inl e)
    then show ?thesis by (simp add: a)
  next
    case (Inr q)
    with Cons.IH [of "ex @ [(l, q)]"] show ?thesis by (simp add: a)
  qed
qed

lemma topic_loop_refine:
  "topic_loop g df items py (map snd ex)
     = map_sum id (\<lambda>(e, p). (map snd e, p)) (topic_loop_traced g df items py ex)"
proof (induction items arbitrary: py ex)
  case Nil
  then show ?case by simp
next
  case (Cons a items)
  obtain t n where a: "a = (t, n)" by (cases a)
  let ?P = "\<lambda>r. r ''tema'' = py_str t"
  let ?pool = "filter (\<lambda>(l, r). ?P r) (labelled df)"
  let ?ds = "np_random g (randbelow (10 ^ 9 + 1) (py 0))"
  have len: "length (filter ?P (rows df)) = length ?pool"
    by (simp add: pool_labelled_length)
  have smp: "sample n ds (filter ?P (rows df)) = map snd (sample n ds ?pool)" for ds
    by (simp only: pool_labelled [symmetric] sample_map)
  show ?case
  proof (cases "length ?pool < n")
    case True
    then show ?thesis by (simp add: a len)
  next
    case False
    show ?thesis
    proof (cases "append_rows_traced ex (sample n ?ds ?pool)")
      case (Inl e)
      with False append_rows_refine [of ex "sample n ?ds ?pool"] show ?thesis
        by (simp add: a Let_def smp len)
    next
      case (Inr ex')
      with False append_rows_refine [of ex "sample n ?ds ?pool"]
        Cons.IH [of "\<lambda>m. py (Suc m)" ex'] show ?thesis
        by (simp add: a Let_def smp len)
    qed
  qed
qed

lemma generate_exam_refine:
  "generate_exam g df = map_sum id (map snd) (generate_exam_traced g df)"
proof -
  from topic_loop_refine [of g df TOPIC_DISTRIBUTION "py_random g" "[]"]
  have "topic_loop g df TOPIC_DISTRIBUTION (py_random g) []
     = map_sum id (\<lambda>(e, p). (map snd e, p))
         (topic_loop_traced g df TOPIC_DISTRIBUTION (py_random g) [])" by simp
  then show ?thesis
    by (cases "topic_loop_traced g df TOPIC_DISTRIBUTION (py_random g) []")
       (auto simp: generate_exam_def generate_exam_traced_def shuffle_map)
qed

lemma topic_loop_traced_short:
  assumes "find (\<lambda>(t, n). length (filter (\<lambda>r. r ''tema'' = py_str t) (rows df)) < n) items
             = Some (t, n)"
    and "\<forall>(t, n) \<in> set items. py_int (py_str t) = Some t"
  shows "topic_loop_traced g df items py ex
           = Inl (ValueError (msg_pool t n (length (filter (\<lambda>r. r ''tema'' = py_str t) (rows df)))))"
  using assms
proof (induction items arbitrary: py ex)
  case Nil
  then show ?case by simp
next
  case (Cons a items)
  obtain t' n' where a: "a = (t', n')" by (cases a)
  let ?pool = "filter (\<lambda>(l, r). r ''tema'' = py_str t') (labelled df)"
  let ?smp = "sample n' (np_random g (randbelow (10 ^ 9 + 1) (py 0))) ?pool"
  have len: "length ?pool = length (filter (\<lambda>r. r ''tema'' = py_str t') (rows df))"
    by (rule pool_labelled_length)
  show ?case
  proof (cases "length ?pool < n'")
    case True
    with Cons.prems(1) have "t = t'" "n = n'" by (simp_all add: a len)
    with True show ?thesis by (simp add: a len)
  next
    case False
    with Cons.prems(1) have f: "find (\<lambda>(t, n). length (filter (\<lambda>r. r ''tema'' = py_str t) (rows df)) < n) items
             = Some (t, n)" by (simp add: a len)
    from Cons.prems(2) have rt: "py_int (py_str t') = Some t'"
      and rts: "\<forall>(t, n) \<in> set items. py_int (py_str t) = Some t" by (auto simp: a)
    from sample_block [OF rt refl, of ex n' _ df]
    obtain blk where blk: "append_rows_traced ex ?smp = Inr (ex @ blk)" by blast
    from Cons.IH [OF f rts, of "\<lambda>m. py (Suc m)" "ex @ blk"] False blk
    show ?thesis by (simp add: a Let_def)
  qed
qed

lemma str_topics: "\<forall>(t, n) \<in> set TOPIC_DISTRIBUTION. py_int (py_str t) = Some t"
  by (simp add: TOPIC_DISTRIBUTION_def py_str_digits py_int_def strip_values digit_val_def)

lemma enough_traced:
  assumes "\<forall>(t, n) \<in> set TOPIC_DISTRIBUTION.
             n \<le> length (filter (\<lambda>r. r ''tema'' = py_str t) (rows df))"
  shows "\<exists>new py'. topic_loop_traced g df TOPIC_DISTRIBUTION (py_random g) [] = Inr (new, py')
           \<and> loop_ok df TOPIC_DISTRIBUTION new"
proof -
  have "\<forall>(t, n) \<in> set TOPIC_DISTRIBUTION. py_int (py_str t) = Some t
             \<and> n \<le> length (filter (\<lambda>(l, r). r ''tema'' = py_str t) (labelled df))"
    using assms str_topics by (auto simp: pool_labelled_length)
  moreover have "distinct (map fst TOPIC_DISTRIBUTION)"
    by (simp add: TOPIC_DISTRIBUTION_def)
  ultimately show ?thesis
    using topic_loop_traced_ok [of TOPIC_DISTRIBUTION df g "py_random g" "[]"] by simp
qed

lemma shuffle_filter_length: "length (filter P (shuffle ds x)) = length (filter P x)"
proof -
  have "mset (filter P (shuffle ds x)) = mset (filter P x)"
    by (simp add: shuffle_mset)
  then show ?thesis by (metis size_mset)
qed

lemma generate_exam_short:
  assumes "find (\<lambda>(t, n). length (filter (\<lambda>r. r ''tema'' = py_str t) (rows df)) < n)
             TOPIC_DISTRIBUTION = Some (t, n)"
  shows "generate_exam g df
           = Inl (ValueError (msg_pool t n (length (filter (\<lambda>r. r ''tema'' = py_str t) (rows df)))))"
proof -
  from topic_loop_traced_short [OF assms str_topics, of g "py_random g" "[]"]
  have "generate_exam_traced g df = Inl (ValueError (msg_pool t n
           (length (filter (\<lambda>r. r ''tema'' = py_str t) (rows df)))))"
    by (simp add: generate_exam_traced_def)
  then show ?thesis by (simp add: generate_exam_refine)
qed

lemma generate_exam_short_isl:
  assumes "(t, n) \<in> set TOPIC_DISTRIBUTION"
    and "length (filter (\<lambda>r. r ''tema'' = py_str t) (rows df)) < n"
  shows "\<exists>e. generate_exam g df = Inl e"
proof -
  let ?short = "\<lambda>(t, n). length (filter (\<lambda>r. r ''tema'' = py_str t) (rows df)) < n"
  from assms have "\<exists>x \<in> set TOPIC_DISTRIBUTION. ?short x" by auto
  then obtain a where "find ?short TOPIC_DISTRIBUTION = Some a"
    by (cases "find ?short TOPIC_DISTRIBUTION") (auto simp: find_None_iff)
  then show ?thesis using generate_exam_short [of df "fst a" "snd a" g] by simp
qed

lemma generate_exam_returns:
  assumes "\<forall>(t, n) \<in> set TOPIC_DISTRIBUTION.
             n \<le> length (filter (\<lambda>r. r ''tema'' = py_str t) (rows df))"
  shows "\<exists>ex. generate_exam g df = Inr ex"
proof -
  from enough_traced [OF assms] obtain new py' where
    "topic_loop_traced g df TOPIC_DISTRIBUTION (py_random g) [] = Inr (new, py')" by blast
  then have "generate_exam_traced g df = Inr (shuffle py' new)"
    by (simp add: generate_exam_traced_def)
  then show ?thesis by (simp add: generate_exam_refine)
qed

subsection \<open>The claims on the generator\<close>

text \<open>
  C1. When every topic of the quota table has at least its quota of rows in the bank,
  \<open>generate_exam\<close> returns a list of exactly 20 records; for each topic the number of
  records of that topic is its quota; and the records come from pairwise different rows of
  the bank: the labels of the source rows, kept by \<open>generate_exam_traced\<close>, are
  distinct, and each record is the one built from the row with its label.
\<close>

theorem generate_exam_valid_bank:
  assumes "\<forall>(t, n) \<in> set TOPIC_DISTRIBUTION.
             n \<le> length (filter (\<lambda>r. r ''tema'' = py_str t) (rows df))"
  shows "\<exists>tr. generate_exam_traced g df = Inr tr
           \<and> generate_exam g df = Inr (map snd tr)
           \<and> length (map snd tr) = 20
           \<and> (\<forall>(t, n) \<in> set TOPIC_DISTRIBUTION.
                 length (filter (\<lambda>q. q_tema q = t) (map snd tr)) = n)
           \<and> distinct (map fst tr)
           \<and> (\<forall>(l, q) \<in> set tr. l < length (rows df) \<and> to_question (rows df ! l) = Inr q)"
proof -
  from enough_traced [OF assms] obtain new py' where
    loop: "topic_loop_traced g df TOPIC_DISTRIBUTION (py_random g) [] = Inr (new, py')"
    and ok: "loop_ok df TOPIC_DISTRIBUTION new" by blast
  let ?tr = "shuffle py' new"
  have 1: "generate_exam_traced g df = Inr ?tr"
    by (simp add: generate_exam_traced_def loop)
  then have 2: "generate_exam g df = Inr (map snd ?tr)"
    by (simp add: generate_exam_refine)
  have 3: "length (map snd ?tr) = 20"
    using ok by (simp add: loop_ok_def TOPIC_DISTRIBUTION_def)
  have 4: "length (filter (\<lambda>q. q_tema q = t) (map snd ?tr)) = n"
    if "(t, n) \<in> set TOPIC_DISTRIBUTION" for t n
  proof -
    have "length (filter (\<lambda>q. q_tema q = t) (map snd ?tr))
            = length (filter ((\<lambda>q. q_tema q = t) \<circ> snd) ?tr)"
      by (simp only: filter_map length_map)
    also have "((\<lambda>q. q_tema q = t) \<circ> snd) = (\<lambda>(l, q). q_tema q = t)" by auto
    also have "length (filter (\<lambda>(l, q). q_tema q = t) ?tr)
                 = length (filter (\<lambda>(l, q). q_tema q = t) new)"
      by (rule shuffle_filter_length)
    also have "\<dots> = n" using ok that by (auto simp: loop_ok_def)
    finally show ?thesis .
  qed
  have "distinct (shuffle py' (map fst new))"
    using ok by (simp add: loop_ok_def)
  then have 5: "distinct (map fst ?tr)" by (simp only: shuffle_map)
  have 6: "\<forall>(l, q) \<in> set ?tr. l < length (rows df) \<and> to_question (rows df ! l) = Inr q"
    using ok by (auto simp: loop_ok_def)
  from 1 2 3 4 5 6 show ?thesis by blast
qed

text \<open>The theorem on the bank that has exactly the quota of each topic.\<close>

theorem generate_exam_valid_bank_witness:
  "\<exists>tr. generate_exam_traced rng0 bank_min = Inr tr
           \<and> generate_exam rng0 bank_min = Inr (map snd tr)
           \<and> length (map snd tr) = 20
           \<and> (\<forall>(t, n) \<in> set TOPIC_DISTRIBUTION.
                 length (filter (\<lambda>q. q_tema q = t) (map snd tr)) = n)
           \<and> distinct (map fst tr)
           \<and> (\<forall>(l, q) \<in> set tr. l < length (rows bank_min)
                 \<and> to_question (rows bank_min ! l) = Inr q)"
proof -
  have h: "\<forall>(t, n) \<in> set TOPIC_DISTRIBUTION.
             n \<le> length (filter (\<lambda>r. r ''tema'' = py_str t) (rows bank_min))"
    by (simp add: TOPIC_DISTRIBUTION_def bank_min_def bank_of_def bank_row_def py_str_digits)
  show ?thesis by (rule generate_exam_valid_bank [OF h])
qed

text \<open>
  C4. \<open>generate_exam\<close> raises exactly when some topic of the quota table has fewer rows
  in the bank than its quota. The error is then the ValueError whose message names a topic
  that is short (the first one in the order of the table), the number of questions it
  needs and the number the bank has.
\<close>

theorem generate_exam_raises:
  "((\<exists>e. generate_exam g df = Inl e) \<longleftrightarrow>
      (\<exists>(t, n) \<in> set TOPIC_DISTRIBUTION.
          length (filter (\<lambda>r. r ''tema'' = py_str t) (rows df)) < n))
   \<and> (\<forall>e. generate_exam g df = Inl e \<longrightarrow>
        (\<exists>(t, n) \<in> set TOPIC_DISTRIBUTION.
            length (filter (\<lambda>r. r ''tema'' = py_str t) (rows df)) < n
          \<and> find (\<lambda>(t, n). length (filter (\<lambda>r. r ''tema'' = py_str t) (rows df)) < n)
                TOPIC_DISTRIBUTION = Some (t, n)
          \<and> e = ValueError (''En el tema '' @ py_str t @ '' necesitas '' @ py_str (int n)
                   @ '' preguntas y solo tienes ''
                   @ py_str (int (length (filter (\<lambda>r. r ''tema'' = py_str t) (rows df))))
                   @ ''.'')))"
proof -
  let ?short = "\<lambda>(t, n). length (filter (\<lambda>r. r ''tema'' = py_str t) (rows df)) < n"
  show ?thesis
  proof (cases "find ?short TOPIC_DISTRIBUTION")
    case None
    then have "\<forall>(t, n) \<in> set TOPIC_DISTRIBUTION.
             n \<le> length (filter (\<lambda>r. r ''tema'' = py_str t) (rows df))"
      by (fastforce simp: find_None_iff)
    from generate_exam_returns [OF this, of g] obtain ex where
      "generate_exam g df = Inr ex" by blast
    moreover from None have "\<not> (\<exists>x \<in> set TOPIC_DISTRIBUTION. ?short x)"
      by (auto simp: find_None_iff)
    ultimately show ?thesis by auto
  next
    case (Some a)
    obtain t n where a: "a = (t, n)" by (cases a)
    from Some a have mem: "(t, n) \<in> set TOPIC_DISTRIBUTION"
      and short: "length (filter (\<lambda>r. r ''tema'' = py_str t) (rows df)) < n"
      by (auto simp: find_Some_iff in_set_conv_nth)
    from Some a have f: "find ?short TOPIC_DISTRIBUTION = Some (t, n)" by simp
    from generate_exam_short [OF f, of g]
    have "generate_exam g df = Inl (ValueError (msg_pool t n
             (length (filter (\<lambda>r. r ''tema'' = py_str t) (rows df)))))" .
    with mem short f show ?thesis
      by (auto simp: msg_pool_def)
  qed
qed

text \<open>The theorem on a bank with one question of topic 3, where two are needed.\<close>

theorem generate_exam_raises_witness:
  "generate_exam rng0 bank_short
     = Inl (ValueError ''En el tema 3 necesitas 2 preguntas y solo tienes 1.'')"
proof -
  have f: "find (\<lambda>(t, n). length (filter (\<lambda>r. r ''tema'' = py_str t) (rows bank_short)) < n)
             TOPIC_DISTRIBUTION = Some (3, 2)"
    by (simp add: TOPIC_DISTRIBUTION_def bank_short_def bank_of_def bank_row_def py_str_digits)
  have len: "length (filter (\<lambda>r. r ''tema'' = py_str 3) (rows bank_short)) = 1"
    by (simp add: bank_short_def bank_of_def bank_row_def py_str_digits)
  have "\<exists>(t, n) \<in> set TOPIC_DISTRIBUTION.
          length (filter (\<lambda>r. r ''tema'' = py_str t) (rows bank_short)) < n"
    using len by (auto simp: TOPIC_DISTRIBUTION_def)
  with generate_exam_raises [of rng0 bank_short]
  obtain e where e: "generate_exam rng0 bank_short = Inl e" by blast
  with generate_exam_raises [of rng0 bank_short] f
  have "e = ValueError (''En el tema '' @ py_str 3 @ '' necesitas '' @ py_str (int 2)
                   @ '' preguntas y solo tienes ''
                   @ py_str (int (length (filter (\<lambda>r. r ''tema'' = py_str 3) (rows bank_short))))
                   @ ''.'')"
    by fastforce
  moreover have "length (filter (\<lambda>r. r ''tema'' = ''3'') (rows bank_short)) = 1"
    by (simp add: bank_short_def bank_of_def bank_row_def)
  ultimately show ?thesis using e by (simp add: py_str_digits)
qed

lemma render_settled:
  assumes "exam s = Some ex" and "getitem ex (idx s) = Inr q"
    and "make_labels q keys = Inr labels"
    and "answers s (idx s) = Some k" and "k \<in> set keys"
    and "w (''Respuesta:'', map snd labels, default_index (Some k)) = None
           \<or> w (''Respuesta:'', map snd labels, default_index (Some k)) = Some k"
  shows "render w s = Inr s"
proof -
  have "keys ! default_index (Some k) = k"
    using assms(5) by (auto simp: default_index_def keys_def)
  with assms(6) have "st_radio w ''Respuesta:'' keys (map snd labels) (default_index (Some k)) = k"
    by (auto simp: st_radio_def)
  moreover have "(answers s)(idx s \<mapsto> k) = answers s"
    using assms(4) by (simp add: map_upd_triv)
  ultimately show ?thesis
    using assms(1-4) by (simp add: render_def)
qed

text \<open>
  C5. When some topic of the quota table has fewer rows than its quota, the handler of
  the Generate button leaves the session as it was (the exam, the cursor and the answers),
  whatever the session is, and shows a message. The script then goes on as in every run:
  with no exam it stops; with an exam it renders the question at the cursor, which
  records again the answer that is recorded for it when the radio returns it (Streamlit
  keeps no other value for the widget with that answer as its default), so that the
  session after the whole run is still the one before the attempt.
\<close>

theorem generar_failure_keeps_session:
  assumes "(t, n) \<in> set TOPIC_DISTRIBUTION"
    and "length (filter (\<lambda>r. r ''tema'' = py_str t) (rows df)) < n"
  shows "fst (generar g df s) = s
     \<and> exam (fst (generar g df s)) = exam s
     \<and> idx (fst (generar g df s)) = idx s
     \<and> answers (fst (generar g df s)) = answers s
     \<and> snd (generar g df s) \<noteq> None
     \<and> (exam s = None \<longrightarrow> render w (fst (generar g df s)) = Inr s)
     \<and> (\<forall>ex q labels k. exam s = Some ex \<and> getitem ex (idx s) = Inr q
            \<and> make_labels q keys = Inr labels
            \<and> answers s (idx s) = Some k \<and> k \<in> set keys
            \<and> (w (''Respuesta:'', map snd labels, default_index (Some k)) = None
                 \<or> w (''Respuesta:'', map snd labels, default_index (Some k)) = Some k) \<longrightarrow>
          render w (fst (generar g df s)) = Inr s)"
proof -
  from generate_exam_short_isl [OF assms] obtain e where "generate_exam g df = Inl e" by blast
  then have s: "generar g df s = (s, Some (msg_generar e))" by (simp add: generar_def)
  have "render w s = Inr s" if "exam s = None"
    using that by (simp add: render_def)
  with s show ?thesis by (auto intro: render_settled)
qed

text \<open>The theorem on the same bank and a session with an exam in progress.\<close>

theorem generar_failure_keeps_session_witness:
  "fst (generar rng0 bank_short session_seen) = session_seen
   \<and> snd (generar rng0 bank_short session_seen) \<noteq> None
   \<and> render widgets_none (fst (generar rng0 bank_short session_seen)) = Inr session_seen"
proof -
  have m: "(3, 2) \<in> set TOPIC_DISTRIBUTION" by (simp add: TOPIC_DISTRIBUTION_def)
  have s: "length (filter (\<lambda>r. r ''tema'' = py_str 3) (rows bank_short)) < 2"
    by (simp add: bank_short_def bank_of_def bank_row_def py_str_digits)
  have h: "exam session_seen = Some exam_A \<and> getitem exam_A (idx session_seen) = Inr (question_A 4)
     \<and> make_labels (question_A 4) keys
          = Inr [(''A'', ''A) x''), (''B'', ''B) y''), (''C'', ''C) z'')]
     \<and> answers session_seen (idx session_seen) = Some ''A'' \<and> ''A'' \<in> set keys
     \<and> widgets_none (''Respuesta:'',
           map snd [(''A'', ''A) x''), (''B'', ''B) y''), (''C'', ''C) z'')],
           default_index (Some ''A'')) = None"
    by (simp add: session_seen_def exam_A_def keys_def getitem_def question_A_def
        widgets_none_def)
  from generar_failure_keeps_session [OF m s, of rng0 session_seen widgets_none] h
  show ?thesis by blast
qed

subsection \<open>The loader\<close>

lemma topic_names_eq: "map py_str [1..7] = topic_names"
  by (simp add: topic_names_def py_str_def str_nat.simps digit_char_def upto_rec1)

lemma empty_fields_normalised [simp]: "empty_fields (normalised r) = empty_fields r"
  by (simp add: empty_fields_def normalised_def)

lemma load_questions_table:
  assumes "fs path = Some (Inr t)"
  shows "load_questions fs path =
     (let rs = map (\<lambda>r. normalised (cells r)) (rows t) in
      if missing_columns t \<noteq> [] then Inl (ValueError (msg_missing (missing_columns t)))
      else if \<exists>r \<in> set rs. r ''tema'' \<notin> set topic_names then Inl (ValueError msg_temas)
      else if \<exists>r \<in> set rs. r ''correcta'' \<notin> set [''A'', ''B'', ''C'']
        then Inl (ValueError msg_correcta)
      else if \<exists>r \<in> set rs. empty_fields r then Inl (ValueError msg_vacias)
      else Inr \<lparr>columns = columns t, rows = rs\<rparr>)"
proof -
  let ?filled = "fillna [] t"
  let ?df = "assign_col ''correcta'' (\<lambda>s. py_upper (py_strip s)) (assign_col ''tema'' py_strip ?filled)"
  let ?rs = "map (\<lambda>r. normalised (cells r)) (rows t)"
  have c0: "columns ?filled = columns t" by (simp add: fillna_def)
  have r0: "rows ?filled = map cells (rows t)"
    by (simp add: fillna_def cells_def fun_eq_iff)
  have rows: "rows ?df = ?rs"
    by (simp add: assign_col_def r0 normalised_def fun_eq_iff)
  have cols: "columns ?df = columns t"
    by (simp add: assign_col_def fillna_def)
  have df: "?df = \<lparr>columns = columns t, rows = ?rs\<rparr>"
    by (rule frame.equality) (simp_all add: cols rows)
  let ?rec = "\<lparr>columns = columns t, rows = ?rs\<rparr>"
  have bad: "(0 < length (filter empty_fields (rows ?rec))) = (\<exists>r \<in> set ?rs. empty_fields r)"
    by (auto simp: filter_empty_conv)
  have tema: "(set (col ?rec ''tema'') \<subseteq> set (map py_str [1..7]))
                = (\<not> (\<exists>r \<in> set ?rs. r ''tema'' \<notin> set topic_names))"
    unfolding col_def topic_names_eq by auto
  have corr: "(set (col ?rec ''correcta'') \<subseteq> set [''A'', ''B'', ''C''])
                = (\<not> (\<exists>r \<in> set ?rs. r ''correcta'' \<notin> set [''A'', ''B'', ''C'']))"
    unfolding col_def by auto
  have "load_questions fs path =
     (if missing_columns t \<noteq> [] then Inl (ValueError (msg_missing (missing_columns t)))
      else if \<not> set (col ?df ''tema'') \<subseteq> set (map py_str [1..7]) then Inl (ValueError msg_temas)
      else if \<not> set (col ?df ''correcta'') \<subseteq> set [''A'', ''B'', ''C'']
        then Inl (ValueError msg_correcta)
      else if 0 < length (filter empty_fields (rows ?df)) then Inl (ValueError msg_vacias)
      else Inr ?df)"
    unfolding load_questions_def Let_def missing_columns_def
    by (simp only: assms option.case sum.case c0)
  also have "\<dots> = (if missing_columns t \<noteq> [] then Inl (ValueError (msg_missing (missing_columns t)))
      else if \<exists>r \<in> set ?rs. r ''tema'' \<notin> set topic_names then Inl (ValueError msg_temas)
      else if \<exists>r \<in> set ?rs. r ''correcta'' \<notin> set [''A'', ''B'', ''C'']
        then Inl (ValueError msg_correcta)
      else if \<exists>r \<in> set ?rs. empty_fields r then Inl (ValueError msg_vacias)
      else Inr \<lparr>columns = columns t, rows = ?rs\<rparr>)"
    by (simp only: df tema corr bad not_not)
  finally show ?thesis by (simp only: Let_def)
qed

lemma missing_columns_Nil: "(missing_columns t = []) = (set required \<subseteq> set (columns t))"
  by (auto simp: missing_columns_def filter_empty_conv)

lemma strip_topic: "s \<in> set topic_names \<Longrightarrow> py_strip s = s"
  by (auto simp: topic_names_def strip_values)

lemma strip_Nil [simp]: "py_strip [] = []"
  by (simp add: strip_values)

lemma normalised_other: "c \<noteq> ''tema'' \<Longrightarrow> c \<noteq> ''correcta'' \<Longrightarrow> normalised r c = r c"
  by (simp add: normalised_def)

lemma normalised_tema: "normalised r ''tema'' = py_strip (r ''tema'')"
  by (simp add: normalised_def)

lemma normalised_correcta: "normalised r ''correcta'' = py_upper (py_strip (r ''correcta''))"
  by (simp add: normalised_def)

lemma load_questions_cases:
  assumes "fs path = Some (Inr t)"
  shows "load_questions fs path =
     (if missing_columns t \<noteq> [] then Inl (ValueError (msg_missing (missing_columns t)))
      else if list_ex tema_invalid (rows t) then Inl (ValueError msg_temas)
      else if list_ex correcta_invalid (rows t) then Inl (ValueError msg_correcta)
      else if list_ex fields_empty (rows t) then Inl (ValueError msg_vacias)
      else Inr \<lparr>columns = columns t, rows = map (\<lambda>r. normalised (cells r)) (rows t)\<rparr>)"
proof -
  let ?rs = "map (\<lambda>r. normalised (cells r)) (rows t)"
  have 1: "(\<exists>r \<in> set ?rs. r ''tema'' \<notin> set topic_names) = list_ex tema_invalid (rows t)"
    by (simp add: list_ex_iff tema_invalid_def normalised_tema)
  have 2: "(\<exists>r \<in> set ?rs. r ''correcta'' \<notin> set [''A'', ''B'', ''C''])
             = list_ex correcta_invalid (rows t)"
    by (simp add: list_ex_iff correcta_invalid_def normalised_correcta)
  have 3: "(\<exists>r \<in> set ?rs. empty_fields r) = list_ex fields_empty (rows t)"
    by (simp add: list_ex_iff fields_empty_def)
  show ?thesis
    by (simp only: load_questions_table [of fs path t, OF assms] Let_def 1 2 3)
qed

subsection \<open>The claims on the loader\<close>

text \<open>
  C8, as amended. \<open>load_questions\<close> leaves the file system as it is. When it returns a
  bank for a file that was read, the bank has one row for each row of the file, in the
  same order. In each row \<open>tema\<close> is the cell of the file trimmed (so it has no
  surrounding whitespace), \<open>correcta\<close> is the cell of the file trimmed and uppercased,
  one of A, B, C, and \<open>enunciado\<close>, \<open>A\<close>, \<open>B\<close> and \<open>C\<close> are the cells of the file
  as they were read (NaN as the empty string), not trimmed.
\<close>



theorem load_questions_trimming:
  assumes "fs path = Some (Inr t)" and "load_questions fs path = Inr df"
  shows "snd (load_questions_step fs path) = fs
     \<and> fst (load_questions_step fs path) = Inr df
     \<and> length (rows df) = length (rows t)
     \<and> (\<forall>i < length (rows t).
           (rows df ! i) ''tema'' = py_strip (cells (rows t ! i) ''tema'')
         \<and> py_strip ((rows df ! i) ''tema'') = (rows df ! i) ''tema''
         \<and> (rows df ! i) ''correcta'' = py_upper (py_strip (cells (rows t ! i) ''correcta''))
         \<and> (rows df ! i) ''correcta'' \<in> set [''A'', ''B'', ''C'']
         \<and> (rows df ! i) ''enunciado'' = cells (rows t ! i) ''enunciado''
         \<and> (rows df ! i) ''A'' = cells (rows t ! i) ''A''
         \<and> (rows df ! i) ''B'' = cells (rows t ! i) ''B''
         \<and> (rows df ! i) ''C'' = cells (rows t ! i) ''C'')"
proof -
  let ?rs = "map (\<lambda>r. normalised (cells r)) (rows t)"
  note eq = load_questions_table [of fs path t, OF assms(1), unfolded Let_def]
  have df: "rows df = ?rs"
    using eq assms(2) by (auto split: if_splits)
  have tema: "\<forall>r \<in> set ?rs. r ''tema'' \<in> set topic_names"
    using eq assms(2) by (auto split: if_splits)
  have corr: "\<forall>r \<in> set ?rs. r ''correcta'' \<in> set [''A'', ''B'', ''C'']"
    using eq assms(2) by (auto split: if_splits)
  have "(rows df ! i) ''tema'' = py_strip (cells (rows t ! i) ''tema'')
         \<and> py_strip ((rows df ! i) ''tema'') = (rows df ! i) ''tema''
         \<and> (rows df ! i) ''correcta'' = py_upper (py_strip (cells (rows t ! i) ''correcta''))
         \<and> (rows df ! i) ''correcta'' \<in> set [''A'', ''B'', ''C'']
         \<and> (rows df ! i) ''enunciado'' = cells (rows t ! i) ''enunciado''
         \<and> (rows df ! i) ''A'' = cells (rows t ! i) ''A''
         \<and> (rows df ! i) ''B'' = cells (rows t ! i) ''B''
         \<and> (rows df ! i) ''C'' = cells (rows t ! i) ''C''" if i: "i < length (rows t)" for i
  proof -
    have r: "rows df ! i = normalised (cells (rows t ! i))" using i by (simp add: df)
    then have "rows df ! i \<in> set ?rs" using i by (metis df length_map nth_mem)
    with tema corr have "(rows df ! i) ''tema'' \<in> set topic_names"
      "(rows df ! i) ''correcta'' \<in> set [''A'', ''B'', ''C'']" by blast+
    then show ?thesis
      by (simp add: strip_topic) (simp add: r normalised_tema normalised_correcta normalised_other)
  qed
  moreover have "length (rows df) = length (rows t)" by (simp add: df)
  moreover have "snd (load_questions_step fs path) = fs"
    "fst (load_questions_step fs path) = Inr df"
    by (simp_all add: load_questions_step_def assms(2))
  ultimately show ?thesis by blast
qed

text \<open>
  C8 as the spec states it fails on a file whose cells have surrounding whitespace: the
  bank that is returned has \<open>tema\<close> and \<open>correcta\<close> trimmed, and the statement and
  the options with their spaces.
\<close>

lemma fs_with_file: "fs_with t CSV_FILENAME = Some (Inr t)"
  by (simp add: fs_with_def)

lemmas load_fs_with =
  load_questions_cases [of "fs_with t" CSV_FILENAME t, OF fs_with_file] for t

lemma load_untrimmed:
  "load_questions (fs_with table_untrimmed) CSV_FILENAME
     = Inr \<lparr>columns = columns table_untrimmed,
            rows = map (\<lambda>r. normalised (cells r)) (rows table_untrimmed)\<rparr>"
  by (subst load_fs_with)
     (simp add: table_untrimmed_def required_def missing_columns_def tema_invalid_def
        correcta_invalid_def fields_empty_def empty_fields_def cells_def topic_names_def
        strip_values py_upper_def upper_char_def)

theorem load_questions_keeps_whitespace:
  "column_of (load_questions (fs_with table_untrimmed) CSV_FILENAME) ''tema'' = Inr [''1'']
   \<and> column_of (load_questions (fs_with table_untrimmed) CSV_FILENAME) ''correcta'' = Inr [''A'']
   \<and> column_of (load_questions (fs_with table_untrimmed) CSV_FILENAME) ''enunciado'' = Inr ['' Q '']
   \<and> column_of (load_questions (fs_with table_untrimmed) CSV_FILENAME) ''A'' = Inr ['' a'']
   \<and> column_of (load_questions (fs_with table_untrimmed) CSV_FILENAME) ''B'' = Inr [''b '']
   \<and> py_strip '' Q '' = ''Q'' \<and> py_strip '' a'' = ''a'' \<and> py_strip ''b '' = ''b''"
  by (simp add: load_untrimmed column_of_def col_def)
     (simp add: table_untrimmed_def normalised_def cells_def strip_values
        py_upper_def upper_char_def)

text \<open>The amended statement on the same file.\<close>

theorem load_questions_trimming_witness:
  "\<exists>df. load_questions (fs_with table_untrimmed) CSV_FILENAME = Inr df
      \<and> snd (load_questions_step (fs_with table_untrimmed) CSV_FILENAME) = fs_with table_untrimmed
      \<and> length (rows df) = 1
      \<and> (rows df ! 0) ''tema'' = ''1''
      \<and> (rows df ! 0) ''correcta'' = ''A''
      \<and> (rows df ! 0) ''enunciado'' = '' Q ''
      \<and> (rows df ! 0) ''A'' = '' a''"
proof -
  from load_untrimmed obtain df where
    df: "load_questions (fs_with table_untrimmed) CSV_FILENAME = Inr df" by blast
  have c: "py_strip (cells (rows table_untrimmed ! 0) ''tema'') = ''1''"
    "py_upper (py_strip (cells (rows table_untrimmed ! 0) ''correcta'')) = ''A''"
    "cells (rows table_untrimmed ! 0) ''enunciado'' = '' Q ''"
    "cells (rows table_untrimmed ! 0) ''A'' = '' a''"
    "length (rows table_untrimmed) = 1"
    by (simp_all add: table_untrimmed_def cells_def strip_values py_upper_def
        upper_char_def)
  from load_questions_trimming
    [of "fs_with table_untrimmed" CSV_FILENAME table_untrimmed, OF fs_with_file df] c df
  show ?thesis by simp
qed

lemma join_strs_mem: "x \<in> set xs \<Longrightarrow> \<exists>pre post. join_strs sep xs = pre @ x @ post"
proof (induction sep xs rule: join_strs.induct)
  case (1 sep)
  then show ?case by simp
next
  case (2 sep s)
  then have "join_strs sep [s] = [] @ x @ []" by simp
  then show ?case by blast
next
  case (3 sep s t ss)
  show ?case
  proof (cases "x = s")
    case True
    then have "join_strs sep (s # t # ss) = [] @ x @ (sep @ join_strs sep (t # ss))" by simp
    then show ?thesis by blast
  next
    case False
    with 3 obtain pre post where "join_strs sep (t # ss) = pre @ x @ post" by auto
    then have "join_strs sep (s # t # ss) = (s @ sep @ pre) @ x @ post" by simp
    then show ?thesis by blast
  qed
qed

lemma repr_list_mem:
  assumes "c \<in> set ss"
  shows "\<exists>pre post. repr_list ss = pre @ [CHR 0x27] @ c @ [CHR 0x27] @ post"
proof -
  from assms have "repr_str c \<in> set (map repr_str ss)" by simp
  from join_strs_mem [OF this, of "'', ''"] obtain pre post where
    "join_strs '', '' (map repr_str ss) = pre @ repr_str c @ post" by blast
  then have "repr_list ss = (''['' @ pre) @ [CHR 0x27] @ c @ [CHR 0x27] @ (post @ '']'')"
    by (simp add: repr_list_def repr_str_def)
  then show ?thesis by blast
qed

text \<open>
  C9, as amended. For a file that was read, the checks are made in this order and the
  first that fails decides the error. Required columns that are missing are listed in the
  message, each by its quoted name. A row whose trimmed \<open>tema\<close> is not one of 1 to 7
  gives a fixed message that says that topics must be 1..7; a row whose trimmed and
  uppercased \<open>correcta\<close> is not A, B or C gives a fixed message that says that the
  column must be A/B/C; a row with an empty statement or option gives a fixed message on
  empty fields. These three messages do not name the offending values. The load fails
  exactly when some column is missing or some row has one of these violations, and a bank
  that is returned holds every row of the file.
\<close>

theorem load_questions_validation:
  assumes "fs path = Some (Inr t)"
  shows "(missing_columns t \<noteq> [] \<longrightarrow>
            load_questions fs path
              = Inl (ValueError (''Faltan columnas: '' @ repr_list (missing_columns t)
                                   @ ''. Debe haber: '' @ repr_list required))
          \<and> (\<forall>c \<in> set (missing_columns t).
                \<exists>pre post. repr_list (missing_columns t)
                              = pre @ [CHR 0x27] @ c @ [CHR 0x27] @ post))
     \<and> (missing_columns t = [] \<and> list_ex tema_invalid (rows t) \<longrightarrow>
            load_questions fs path
              = Inl (ValueError (''Hay temas inv'' @ [CHR 0xC3, CHR 0xA1]
                                   @ ''lidos. Deben ser 1..7.'')))
     \<and> (missing_columns t = [] \<and> \<not> list_ex tema_invalid (rows t)
          \<and> list_ex correcta_invalid (rows t) \<longrightarrow>
            load_questions fs path
              = Inl (ValueError ''La columna 'correcta' debe ser A/B/C (sin espacios).''))
     \<and> (missing_columns t = [] \<and> \<not> list_ex tema_invalid (rows t)
          \<and> \<not> list_ex correcta_invalid (rows t) \<and> list_ex fields_empty (rows t) \<longrightarrow>
            load_questions fs path
              = Inl (ValueError (''Hay filas con enunciado u opciones vac''
                                   @ [CHR 0xC3, CHR 0xAD] @ ''as. Revisa tu Excel/CSV.'')))
     \<and> (isl (load_questions fs path) \<longleftrightarrow>
            missing_columns t \<noteq> [] \<or> list_ex tema_invalid (rows t)
            \<or> list_ex correcta_invalid (rows t) \<or> list_ex fields_empty (rows t))
     \<and> (\<forall>df. load_questions fs path = Inr df \<longrightarrow>
            length (rows df) = length (rows t)
          \<and> rows df = map (\<lambda>r. normalised (cells r)) (rows t))"
proof -
  note eq = load_questions_cases [of fs path t, OF assms]
  have lst: "\<forall>c \<in> set (missing_columns t).
                \<exists>pre post. repr_list (missing_columns t)
                              = pre @ [CHR 0x27] @ c @ [CHR 0x27] @ post"
    by (blast intro: repr_list_mem)
  have m: "msg_temas = ''Hay temas inv'' @ [CHR 0xC3, CHR 0xA1] @ ''lidos. Deben ser 1..7.''"
    "msg_correcta = ''La columna 'correcta' debe ser A/B/C (sin espacios).''"
    "msg_vacias = ''Hay filas con enunciado u opciones vac'' @ [CHR 0xC3, CHR 0xAD]
       @ ''as. Revisa tu Excel/CSV.''"
    by (simp_all add: msg_temas_def msg_correcta_def msg_vacias_def repr_str_def)
  have 1: "missing_columns t \<noteq> [] \<Longrightarrow>
            load_questions fs path
              = Inl (ValueError (''Faltan columnas: '' @ repr_list (missing_columns t)
                                   @ ''. Debe haber: '' @ repr_list required))"
    by (simp add: eq msg_missing_def)
  have 2: "missing_columns t = [] \<and> list_ex tema_invalid (rows t) \<Longrightarrow>
            load_questions fs path = Inl (ValueError msg_temas)"
    by (simp add: eq)
  have 3: "missing_columns t = [] \<and> \<not> list_ex tema_invalid (rows t)
          \<and> list_ex correcta_invalid (rows t) \<Longrightarrow>
            load_questions fs path = Inl (ValueError msg_correcta)"
    by (simp add: eq)
  have 4: "missing_columns t = [] \<and> \<not> list_ex tema_invalid (rows t)
          \<and> \<not> list_ex correcta_invalid (rows t) \<and> list_ex fields_empty (rows t) \<Longrightarrow>
            load_questions fs path = Inl (ValueError msg_vacias)"
    by (simp add: eq)
  have 5: "isl (load_questions fs path) \<longleftrightarrow>
            missing_columns t \<noteq> [] \<or> list_ex tema_invalid (rows t)
            \<or> list_ex correcta_invalid (rows t) \<or> list_ex fields_empty (rows t)"
    by (simp add: eq)
  have 6: "\<forall>df. load_questions fs path = Inr df \<longrightarrow>
            length (rows df) = length (rows t)
          \<and> rows df = map (\<lambda>r. normalised (cells r)) (rows t)"
    by (auto simp: eq split: if_splits)
  from 1 2 3 4 5 6 lst show ?thesis unfolding m by blast
qed

text \<open>
  C9 as the spec states it fails on a file with the topic 8 and on one with the key D: the
  messages are the fixed texts, in which the offending values 8 and D do not occur.
\<close>

theorem invalid_values_not_named:
  "load_questions (fs_with table_topic8) CSV_FILENAME
     = Inl (ValueError (''Hay temas inv'' @ [CHR 0xC3, CHR 0xA1] @ ''lidos. Deben ser 1..7.''))
   \<and> CHR ''8'' \<notin> set (''Hay temas inv'' @ [CHR 0xC3, CHR 0xA1] @ ''lidos. Deben ser 1..7.'')
   \<and> load_questions (fs_with table_keyD) CSV_FILENAME
     = Inl (ValueError ''La columna 'correcta' debe ser A/B/C (sin espacios).'')
   \<and> CHR ''D'' \<notin> set ''La columna 'correcta' debe ser A/B/C (sin espacios).''"
proof -
  have 1: "load_questions (fs_with table_topic8) CSV_FILENAME = Inl (ValueError msg_temas)"
    by (subst load_fs_with)
       (simp add: table_topic8_def required_def missing_columns_def tema_invalid_def
          cells_def topic_names_def strip_values)
  have 2: "load_questions (fs_with table_keyD) CSV_FILENAME = Inl (ValueError msg_correcta)"
    by (subst load_fs_with)
       (simp add: table_keyD_def required_def missing_columns_def tema_invalid_def
          correcta_invalid_def cells_def topic_names_def strip_values py_upper_def
          upper_char_def)
  from 1 2 show ?thesis
    by (simp add: msg_temas_def msg_correcta_def repr_str_def)
qed

text \<open>
  The amended statement on a file with two columns missing, on three files with one kind
  of violation first, and on a valid file.
\<close>

theorem load_questions_validation_witness:
  "load_questions (fs_with table_missing) CSV_FILENAME
     = Inl (ValueError ''Faltan columnas: ['C', 'correcta']. Debe haber: ['tema', 'enunciado', 'A', 'B', 'C', 'correcta']'')
   \<and> load_questions (fs_with table_topic8) CSV_FILENAME
     = Inl (ValueError (''Hay temas inv'' @ [CHR 0xC3, CHR 0xA1] @ ''lidos. Deben ser 1..7.''))
   \<and> load_questions (fs_with table_keyD) CSV_FILENAME
     = Inl (ValueError ''La columna 'correcta' debe ser A/B/C (sin espacios).'')
   \<and> load_questions (fs_with table_no_statement) CSV_FILENAME
     = Inl (ValueError (''Hay filas con enunciado u opciones vac''
                          @ [CHR 0xC3, CHR 0xAD] @ ''as. Revisa tu Excel/CSV.''))
   \<and> \<not> isl (load_questions (fs_with table_untrimmed) CSV_FILENAME)"
proof -
  have 1: "missing_columns table_missing = [''C'', ''correcta'']"
    by (simp add: table_missing_def missing_columns_def required_def)
  have 2: "missing_columns table_topic8 = []" "list_ex tema_invalid (rows table_topic8)"
    by (simp_all add: table_topic8_def missing_columns_def required_def tema_invalid_def
        cells_def strip_values topic_names_def)
  have 3: "missing_columns table_keyD = []" "\<not> list_ex tema_invalid (rows table_keyD)"
    "list_ex correcta_invalid (rows table_keyD)"
    by (simp_all add: table_keyD_def missing_columns_def required_def tema_invalid_def
        correcta_invalid_def cells_def strip_values topic_names_def py_upper_def
        upper_char_def)
  have 4: "missing_columns table_no_statement = []"
    "\<not> list_ex tema_invalid (rows table_no_statement)"
    "\<not> list_ex correcta_invalid (rows table_no_statement)"
    "list_ex fields_empty (rows table_no_statement)"
    by (simp_all add: table_no_statement_def missing_columns_def required_def tema_invalid_def
        correcta_invalid_def fields_empty_def empty_fields_def cells_def strip_values
        topic_names_def py_upper_def upper_char_def)
  have 5: "missing_columns table_untrimmed = []"
    "\<not> list_ex tema_invalid (rows table_untrimmed)"
    "\<not> list_ex correcta_invalid (rows table_untrimmed)"
    "\<not> list_ex fields_empty (rows table_untrimmed)"
    by (simp_all add: table_untrimmed_def missing_columns_def required_def tema_invalid_def
        correcta_invalid_def fields_empty_def empty_fields_def cells_def strip_values
        topic_names_def py_upper_def upper_char_def)
  have ne: "missing_columns table_missing \<noteq> []" by (simp add: 1)
  from load_questions_validation [of "fs_with table_missing" CSV_FILENAME table_missing, OF fs_with_file] ne
  have "load_questions (fs_with table_missing) CSV_FILENAME
     = Inl (ValueError (''Faltan columnas: '' @ repr_list (missing_columns table_missing)
                          @ ''. Debe haber: '' @ repr_list required))"
    by blast
  then have a: "load_questions (fs_with table_missing) CSV_FILENAME
     = Inl (ValueError ''Faltan columnas: ['C', 'correcta']. Debe haber: ['tema', 'enunciado', 'A', 'B', 'C', 'correcta']'')"
    by (simp add: 1 repr_list_def repr_str_def required_def)
  from load_questions_validation [of "fs_with table_topic8" CSV_FILENAME table_topic8, OF fs_with_file] 2
  have b: "load_questions (fs_with table_topic8) CSV_FILENAME
     = Inl (ValueError (''Hay temas inv'' @ [CHR 0xC3, CHR 0xA1] @ ''lidos. Deben ser 1..7.''))"
    by blast
  from load_questions_validation [of "fs_with table_keyD" CSV_FILENAME table_keyD, OF fs_with_file] 3
  have c: "load_questions (fs_with table_keyD) CSV_FILENAME
     = Inl (ValueError ''La columna 'correcta' debe ser A/B/C (sin espacios).'')"
    by blast
  from load_questions_validation [of "fs_with table_no_statement" CSV_FILENAME table_no_statement, OF fs_with_file] 4
  have d: "load_questions (fs_with table_no_statement) CSV_FILENAME
     = Inl (ValueError (''Hay filas con enunciado u opciones vac''
                          @ [CHR 0xC3, CHR 0xAD] @ ''as. Revisa tu Excel/CSV.''))"
    by blast
  from load_questions_validation [of "fs_with table_untrimmed" CSV_FILENAME table_untrimmed, OF fs_with_file] 5
  have e: "\<not> isl (load_questions (fs_with table_untrimmed) CSV_FILENAME)"
    by blast
  from a b c d e show ?thesis by blast
qed

text \<open>
  C10. For a file that was read and has the required columns, every error of the load is
  one of the three validation errors; a row with a missing value (NaN) in one of the six
  required columns makes the load fail, so with one of these three; and it fails with the
  error on invalid topics when the missing value is in \<open>tema\<close>. The cells of a bank
  that is returned are strings: \<open>fillna\<close> has replaced every NaN.
\<close>

theorem load_questions_missing_cell:
  assumes "fs path = Some (Inr t)" and "set required \<subseteq> set (columns t)"
  shows "(\<forall>e. load_questions fs path = Inl e \<longrightarrow>
            e = ValueError msg_temas \<or> e = ValueError msg_correcta \<or> e = ValueError msg_vacias)
     \<and> (\<forall>r \<in> set (rows t). \<forall>c \<in> set required. r c = None \<longrightarrow>
            isl (load_questions fs path))
     \<and> (\<forall>r \<in> set (rows t). r ''tema'' = None \<longrightarrow>
            load_questions fs path = Inl (ValueError msg_temas))"
proof -
  have m: "missing_columns t = []" using assms(2) by (simp add: missing_columns_Nil)
  note eq = load_questions_cases [of fs path t, OF assms(1)]
  have 1: "e = ValueError msg_temas \<or> e = ValueError msg_correcta \<or> e = ValueError msg_vacias"
    if "load_questions fs path = Inl e" for e
    using that by (simp add: eq m split: if_splits)
  have 2: "isl (load_questions fs path)"
    if r: "r \<in> set (rows t)" and c: "c \<in> set required" and n: "r c = None" for r c
  proof -
    have cell: "cells r c = []" using n by (simp add: cells_def)
    have "tema_invalid r \<or> correcta_invalid r \<or> fields_empty r"
      using c cell
      by (auto simp: required_def tema_invalid_def correcta_invalid_def fields_empty_def
          empty_fields_def topic_names_def py_upper_def)
    then have "list_ex tema_invalid (rows t) \<or> list_ex correcta_invalid (rows t)
                 \<or> list_ex fields_empty (rows t)"
      using r by (auto simp: list_ex_iff)
    then show ?thesis by (auto simp: eq m)
  qed
  have 3: "load_questions fs path = Inl (ValueError msg_temas)"
    if r: "r \<in> set (rows t)" and n: "r ''tema'' = None" for r
  proof -
    from n have "tema_invalid r" by (simp add: tema_invalid_def topic_names_def cells_def)
    with r have "list_ex tema_invalid (rows t)" by (auto simp: list_ex_iff)
    then show ?thesis by (simp add: eq m)
  qed
  from 1 2 3 show ?thesis by blast
qed

text \<open>The theorem on a file whose row has no value of \<open>tema\<close>.\<close>

theorem load_questions_missing_cell_witness:
  "load_questions (fs_with table_nan_tema) CSV_FILENAME = Inl (ValueError msg_temas)"
proof -
  have c: "set required \<subseteq> set (columns table_nan_tema)"
    by (simp add: table_nan_tema_def)
  have r: "map_of [(''enunciado'', ''Q''), (''A'', ''a''), (''B'', ''b''), (''C'', ''c''),
                   (''correcta'', ''A'')] \<in> set (rows table_nan_tema)"
    by (simp add: table_nan_tema_def)
  have n: "map_of [(''enunciado'', ''Q''), (''A'', ''a''), (''B'', ''b''), (''C'', ''c''),
                   (''correcta'', ''A'')] ''tema'' = None"
    by simp
  from load_questions_missing_cell [of "fs_with table_nan_tema" CSV_FILENAME table_nan_tema, OF fs_with_file c] r n show ?thesis by blast
qed

subsection \<open>Grading and the session\<close>

lemma count_loop_total:
  "count_loop ans i ex (c, w) = (c', w') \<Longrightarrow> c' + w' = c + w + length ex"
  by (induction ex arbitrary: i c w) (auto split: if_splits)

lemma review_loop_eq:
  "review_loop ans i ex
     = map (\<lambda>p. (fst p, snd p, ans (int (fst p)))) (filter (missed ans) (enumerate i ex))"
  by (induction ex arbitrary: i) (simp_all add: missed_def Let_def)

lemma count_loop_eq:
  "count_loop ans i ex (c, w)
     = (c + length (filter (\<lambda>p. \<not> missed ans p) (enumerate i ex)),
        w + length (filter (missed ans) (enumerate i ex)))"
  by (induction ex arbitrary: i c w) (simp_all add: missed_def)

lemma grade_eq:
  "grade ex ans =
     \<lparr>correct = length (filter (\<lambda>p. \<not> missed ans p) (enumerate 0 ex)),
      wrong = length (filter (missed ans) (enumerate 0 ex)),
      passed = (16 \<le> length (filter (\<lambda>p. \<not> missed ans p) (enumerate 0 ex))),
      review = map (\<lambda>p. (fst p, snd p, ans (int (fst p)))) (filter (missed ans) (enumerate 0 ex))\<rparr>"
  by (simp add: grade_def count_loop_eq review_loop_eq PASS_SCORE_def)

lemma review_member:
  assumes "j < length ex"
  shows "((j, ex ! j, a) \<in> set (review (grade ex ans)))
           = (ans (int j) = a \<and> a \<noteq> Some (q_correcta (ex ! j)))"
  using assms by (auto simp: grade_eq missed_def in_set_enumerate_eq image_iff)

text \<open>
  C2. Whatever the exam and the answers, the two counters of the grading add up to the
  number of questions, and the verdict is a pass exactly when at least 16 answers are
  correct. It holds for every length of the exam, so for the exams of 20 questions.
\<close>

theorem grade_counts:
  "correct (grade ex ans) + wrong (grade ex ans) = length ex
   \<and> (passed (grade ex ans) \<longleftrightarrow> correct (grade ex ans) \<ge> 16)"
proof -
  obtain c w where cw: "count_loop ans 0 ex (0, 0) = (c, w)"
    by (cases "count_loop ans 0 ex (0, 0)")
  from count_loop_total [OF cw] have "c + w = length ex" by simp
  with cw show ?thesis by (simp add: grade_def PASS_SCORE_def)
qed

text \<open>
  C6. With an exam in the session, the handler of the Finish button returns the session
  it was given and the grading of the exam against the recorded answers; run again on the
  session it returned it gives the same result. The questions of the review are the
  questions whose recorded answer is not the correct key, in the order of the exam.
\<close>

theorem finalizar_idempotent:
  assumes "exam s = Some ex"
  shows "fst (finalizar s) = s
     \<and> snd (finalizar s) = Some (grade ex (answers s))
     \<and> finalizar (fst (finalizar s)) = finalizar s
     \<and> map fst (review (grade ex (answers s)))
          = filter (\<lambda>i. answers s (int i) \<noteq> Some (q_correcta (ex ! i))) [0..<length ex]"
proof -
  have "map fst (filter (missed ans) (enumerate 0 ex))
          = filter (\<lambda>i. ans (int i) \<noteq> Some (q_correcta (ex ! i))) [0..<length ex]" for ans
  proof -
    have "map fst (filter (missed ans) (enumerate 0 ex))
            = map fst (filter (\<lambda>p. ans (int (fst p)) \<noteq> Some (q_correcta (ex ! fst p))) (enumerate 0 ex))"
      by (rule arg_cong [where f = "map fst"], rule filter_cong)
         (auto simp: missed_def in_set_enumerate_eq)
    also have "\<dots> = filter (\<lambda>i. ans (int i) \<noteq> Some (q_correcta (ex ! i))) (map fst (enumerate 0 ex))"
      by (simp only: filter_map comp_def)
    finally show ?thesis by simp
  qed
  then show ?thesis using assms
    by (simp add: finalizar_def grade_eq comp_def)
qed

text \<open>The theorem on a session with an exam in progress.\<close>

theorem finalizar_idempotent_witness:
  "fst (finalizar session_seen) = session_seen
   \<and> snd (finalizar session_seen) = Some (grade exam_A (answers session_seen))
   \<and> finalizar (fst (finalizar session_seen)) = finalizar session_seen"
proof -
  have h: "exam session_seen = Some exam_A" by (simp add: session_seen_def)
  from finalizar_idempotent [OF h] show ?thesis by simp
qed

lemma render_result:
  assumes "render w s = Inr s'"
  shows "exam s' = exam s \<and> idx s' = idx s
     \<and> (s' = s \<or> (\<exists>c. answers s' = (answers s)(idx s \<mapsto> c)))"
  using assms
  by (auto simp: render_def Let_def split: option.splits sum.splits)

lemma run_step_keeps:
  assumes "exam s = Some ex" and "\<forall>j. j \<notin> shown \<longrightarrow> answers s j = None"
  shows "exam (fst (run_step a (s, shown))) = Some ex
     \<and> (\<forall>j. j \<notin> snd (run_step a (s, shown)) \<longrightarrow> answers (fst (run_step a (s, shown))) j = None)"
proof (cases a)
  case (Draw w)
  show ?thesis
  proof (cases "render w s")
    case (Inl e)
    with Draw assms show ?thesis by simp
  next
    case (Inr s')
    from render_result [OF Inr] assms
    have "exam s' = Some ex" "\<forall>j. j \<notin> insert (idx s) shown \<longrightarrow> answers s' j = None"
      by auto
    with Draw Inr assms(1) show ?thesis by simp
  qed
next
  case Previous
  with assms show ?thesis by (simp add: anterior_def)
next
  case Next
  with assms show ?thesis by (simp add: siguiente_def)
next
  case Finish
  with assms show ?thesis by (simp add: finalizar_def)
qed

lemma run_keeps:
  assumes "exam s = Some ex" and "\<forall>j. j \<notin> shown \<longrightarrow> answers s j = None"
  shows "exam (fst (run steps (s, shown))) = Some ex
     \<and> (\<forall>j. j \<notin> snd (run steps (s, shown)) \<longrightarrow> answers (fst (run steps (s, shown))) j = None)"
  using assms
proof (induction steps arbitrary: s shown)
  case Nil
  then show ?case by (simp add: run_def)
next
  case (Cons a steps)
  obtain s1 shown1 where st: "run_step a (s, shown) = (s1, shown1)"
    by (cases "run_step a (s, shown)")
  from run_step_keeps [OF Cons.prems, of a] st
  have "exam s1 = Some ex" "\<forall>j. j \<notin> shown1 \<longrightarrow> answers s1 j = None" by simp_all
  from Cons.IH [OF this] st show ?case by (simp add: run_def)
qed

text \<open>
  C3, as amended. With the cursor on a question of the exam that has no recorded answer,
  the render step records an answer for that question without a choice of the user on
  it, and changes nothing else: the answer A when Streamlit keeps no value for the radio
  with the label, the option labels and the index 0 of this question, and the value it
  keeps otherwise. With A recorded, the grading misses the question at the cursor exactly
  when its correct key is not A. In every run of the script on an exam that starts with
  no recorded answer, as Generate leaves the session, a question that was never displayed
  is missed by the grading and listed in the review with no answer, whatever its correct
  key.
\<close>

theorem render_default_answer:
  "(\<forall>ex q labels. exam s = Some ex \<and> getitem ex (idx s) = Inr q
        \<and> make_labels q keys = Inr labels \<and> answers s (idx s) = None \<longrightarrow>
      render w s
        = Inr (s\<lparr>answers := (answers s)(idx s \<mapsto>
                 (case w (''Respuesta:'', map snd labels, 0) of None \<Rightarrow> ''A'' | Some k \<Rightarrow> k))\<rparr>))
   \<and> (\<forall>ex. exam s = Some ex \<and> 0 \<le> idx s \<and> idx s < int (length ex) \<longrightarrow>
        ((nat (idx s), ex ! nat (idx s), Some ''A'')
            \<in> set (review (grade ex ((answers s)(idx s \<mapsto> ''A''))))
          \<longleftrightarrow> q_correcta (ex ! nat (idx s)) \<noteq> ''A''))
   \<and> (\<forall>ex steps j. exam s = Some ex \<and> answers s = Map.empty \<and> j < length ex
        \<and> int j \<notin> snd (run steps (s, {})) \<longrightarrow>
        (j, ex ! j, None) \<in> set (review (grade ex (answers (fst (run steps (s, {})))))))"
proof -
  have 1: "render w s
        = Inr (s\<lparr>answers := (answers s)(idx s \<mapsto>
                 (case w (''Respuesta:'', map snd labels, 0) of None \<Rightarrow> ''A'' | Some k \<Rightarrow> k))\<rparr>)"
    if "exam s = Some ex" "getitem ex (idx s) = Inr q" "make_labels q keys = Inr labels"
      "answers s (idx s) = None" for ex q labels
  proof -
    have "st_radio w ''Respuesta:'' keys (map snd labels) (default_index None)
            = (case w (''Respuesta:'', map snd labels, 0) of None \<Rightarrow> ''A'' | Some k \<Rightarrow> k)"
      by (simp add: st_radio_def default_index_def keys_def split: option.splits)
    with that show ?thesis by (simp add: render_def)
  qed
  have 2: "((nat (idx s), ex ! nat (idx s), Some ''A'')
            \<in> set (review (grade ex ((answers s)(idx s \<mapsto> ''A''))))
          \<longleftrightarrow> q_correcta (ex ! nat (idx s)) \<noteq> ''A'')"
    if "0 \<le> idx s" "idx s < int (length ex)" for ex
  proof -
    from that have "nat (idx s) < length ex" "int (nat (idx s)) = idx s" by auto
    then show ?thesis by (auto simp: review_member)
  qed
  have 3: "(j, ex ! j, None) \<in> set (review (grade ex (answers (fst (run steps (s, {}))))))"
    if "exam s = Some ex" "answers s = Map.empty" "j < length ex"
      "int j \<notin> snd (run steps (s, {}))" for ex steps j
  proof -
    from that(2) have "\<forall>j. j \<notin> {} \<longrightarrow> answers s j = None" by simp
    from run_keeps [OF that(1) this, of steps] that(4)
    have "answers (fst (run steps (s, {}))) (int j) = None" by blast
    with that(3) show ?thesis by (simp add: review_member)
  qed
  from 1 2 3 show ?thesis by blast
qed

text \<open>
  C3 as the spec states it fails in two ways. On an exam whose 20 correct keys are all A,
  of which only the first question was displayed, the grading counts 1 correct answer and
  19 wrong ones, where 20 answers A would be 20 correct answers and a pass. And on the
  same exam, whose questions have the same option labels, a pick of B on the first
  question followed by Next makes the render step record B, not A, for the second
  question, which the user has not touched.
\<close>

lemma exam_A_length: "length exam_A = 20"
  by (simp add: exam_A_def)

theorem unvisited_not_graded_as_A:
  "render widgets_none session_fresh = Inr session_seen
   \<and> correct (grade exam_A (answers session_seen)) = 1
   \<and> wrong (grade exam_A (answers session_seen)) = 19
   \<and> \<not> passed (grade exam_A (answers session_seen))
   \<and> correct (grade exam_A all_A) = 20
   \<and> passed (grade exam_A all_A)
   \<and> run [Draw widgets_none, Draw widgets_B, Draw widgets_B, Next, Draw widgets_B]
        (session_fresh, {}) = (session_both_B, {0, 1})"
proof -
  have 1: "render widgets_none session_fresh = Inr session_seen"
    by (simp add: render_def session_fresh_def session_seen_def getitem_def exam_A_def
        question_A_def st_radio_def default_index_def keys_def widgets_none_def)
  have 2: "grade exam_A (answers session_seen)
     = \<lparr>correct = 1, wrong = 19, passed = False,
        review = map (\<lambda>p. (fst p, snd p, answers session_seen (int (fst p))))
                   (filter (missed (answers session_seen)) (enumerate 0 exam_A))\<rparr>"
    by (simp add: grade_eq exam_A_def missed_def session_seen_def question_A_def)
  have 3: "grade exam_A all_A
     = \<lparr>correct = 20, wrong = 0, passed = True,
        review = map (\<lambda>p. (fst p, snd p, all_A (int (fst p))))
                   (filter (missed all_A) (enumerate 0 exam_A))\<rparr>"
    by (simp add: grade_eq exam_A_def missed_def all_A_def question_A_def)
  have 4: "run [Draw widgets_none, Draw widgets_B, Draw widgets_B, Next, Draw widgets_B]
        (session_fresh, {}) = (session_both_B, {0, 1})"
    by (simp add: run_def render_def session_fresh_def session_both_B_def getitem_def
        exam_A_def question_A_def st_radio_def default_index_def keys_def widgets_none_def
        widgets_B_def siguiente_def EXAM_SIZE_def insert_commute)
  from 1 4 show ?thesis by (simp add: 2 3)
qed

text \<open>The amended statement on the same session, and on a run that displays two questions.\<close>

theorem render_default_answer_witness:
  "render widgets_none session_fresh
     = Inr (session_fresh\<lparr>answers := (answers session_fresh)(idx session_fresh \<mapsto> ''A'')\<rparr>)
   \<and> (5, exam_A ! 5, None)
        \<in> set (review (grade exam_A (answers (fst
             (run [Draw widgets_none, Next, Draw widgets_B, Finish] (session_fresh, {}))))))"
proof -
  have h: "exam session_fresh = Some exam_A \<and> getitem exam_A (idx session_fresh) = Inr (question_A 4)
     \<and> make_labels (question_A 4) keys
          = Inr [(''A'', ''A) x''), (''B'', ''B) y''), (''C'', ''C) z'')]
     \<and> answers session_fresh (idx session_fresh) = None"
    by (simp add: session_fresh_def exam_A_def keys_def getitem_def question_A_def)
  have w: "(case widgets_none (''Respuesta:'',
              map snd [(''A'', ''A) x''), (''B'', ''B) y''), (''C'', ''C) z'')], 0) of
             None \<Rightarrow> ''A'' | Some k \<Rightarrow> k) = ''A''"
    by (simp add: widgets_none_def)
  have j: "exam session_fresh = Some exam_A \<and> answers session_fresh = Map.empty
     \<and> 5 < length exam_A
     \<and> int 5 \<notin> snd (run [Draw widgets_none, Next, Draw widgets_B, Finish] (session_fresh, {}))"
    by (simp add: run_def render_def session_fresh_def getitem_def
        exam_A_def question_A_def st_radio_def default_index_def keys_def widgets_none_def
        widgets_B_def siguiente_def finalizar_def EXAM_SIZE_def)
  from render_default_answer [of session_fresh widgets_none] h w j show ?thesis by metis
qed

text \<open>
  C7. In a session with an exam of 20 questions and the cursor within it, the Previous
  button at cursor 0 and the Next button at cursor 19 leave the session as it is; at any
  cursor the two buttons keep the exam and the answers, and keep the cursor within the
  exam.
\<close>

theorem navigation_boundaries:
  assumes "exam s = Some ex" and "int (length ex) = EXAM_SIZE"
    and "0 \<le> idx s" and "idx s < int (length ex)"
  shows "(idx s = 0 \<longrightarrow> anterior s = s) \<and> (idx s = 19 \<longrightarrow> siguiente s = s)
     \<and> exam (anterior s) = exam s \<and> answers (anterior s) = answers s
     \<and> 0 \<le> idx (anterior s) \<and> idx (anterior s) < int (length ex)
     \<and> exam (siguiente s) = exam s \<and> answers (siguiente s) = answers s
     \<and> 0 \<le> idx (siguiente s) \<and> idx (siguiente s) < int (length ex)"
  using assms by (auto simp: anterior_def siguiente_def EXAM_SIZE_def)

text \<open>The theorem on a session at the first question and one at the last.\<close>

theorem navigation_boundaries_witness:
  "anterior session_seen = session_seen \<and> siguiente session_last = session_last
   \<and> idx (siguiente session_seen) < int (length exam_A)
   \<and> 0 \<le> idx (anterior session_last)"
proof -
  have a: "exam session_seen = Some exam_A" "int (length exam_A) = EXAM_SIZE"
    "0 \<le> idx session_seen" "idx session_seen < int (length exam_A)" "idx session_seen = 0"
    by (simp_all add: session_seen_def exam_A_length EXAM_SIZE_def)
  have b: "exam session_last = Some exam_A"
    "0 \<le> idx session_last" "idx session_last < int (length exam_A)" "idx session_last = 19"
    by (simp_all add: session_last_def exam_A_length)
  from navigation_boundaries [OF a(1-4)] navigation_boundaries [OF b(1) a(2) b(2,3)] a(5) b(4)
  show ?thesis by blast
qed

end
